theory Spec2Isabelle
  imports Main "HOL-Library.Word" "HOL-Library.Sublist"
begin

unbundle bit_operations_syntax

section \<open>internal/edits/device.go\<close>

subsection \<open>Data\<close>

text \<open>\<^verbatim>\<open>discover.Device\<close>: the container-visible path and the host-visible path.\<close>

record Device =
  HostPath :: string
  Path :: string

text \<open>\<^verbatim>\<open>specs.DeviceNode\<close>, restricted to the two fields \<^verbatim>\<open>toSpec\<close> sets. The
  \<^verbatim>\<open>hostPath\<close> field is tagged \<^verbatim>\<open>omitempty\<close>: an empty string is left out of the
  serialized form.\<close>

record DeviceNode =
  dnHostPath :: string
  dnPath :: string

text \<open>The fields of \<^verbatim>\<open>unix.Stat_t\<close> that \<^verbatim>\<open>getRequiredGID\<close> reads.\<close>

record Stat_t =
  Mode :: "32 word"
  Gid :: "32 word"

text \<open>\<^verbatim>\<open>unix.Lstat\<close>: the host file system answers a path with a stat record, or with
  an error (\<open>None\<close>).\<close>

type_synonym Lstat = "string \<Rightarrow> Stat_t option"

definition S_IFMT :: "32 word" where
  "S_IFMT = 0xF000"

definition S_IFCHR :: "32 word" where
  "S_IFCHR = 0x2000"

text \<open>\<^verbatim>\<open>os.FileMode.Perm\<close>: the mode masked with \<^verbatim>\<open>ModePerm = 0777\<close>.\<close>

definition Perm :: "32 word \<Rightarrow> 32 word" where
  "Perm m = m AND 0x1FF"

subsection \<open>toSpec\<close>

datatype error = Err string | Wrap string error

definition toSpec :: "Device \<Rightarrow> error + DeviceNode" where
  "toSpec d =
     (let hostPath = HostPath d;
          hostPath = (if hostPath = Path d then [] else hostPath)
      in Inr \<lparr>dnHostPath = hostPath, dnPath = Path d\<rparr>)"

subsection \<open>getRequiredGID\<close>

definition getRequiredGID :: "Lstat \<Rightarrow> Device \<Rightarrow> 32 word" where
  "getRequiredGID lstat d =
     (let path = HostPath d;
          path = (if path = [] then Path d else path)
      in if path = [] then 0
         else case lstat path of
           None \<Rightarrow> 0
         | Some stat \<Rightarrow>
             if Mode stat AND S_IFMT \<noteq> S_IFCHR then 0
             else if Perm (Mode stat) AND 6 = 0 then Gid stat
             else 0)"

text \<open>The words of the specification: a char-special file, and the read and write permission
  bits of "other" (octal 04 and 02, bits 2 and 1 of the mode).\<close>

definition is_char_special :: "Stat_t \<Rightarrow> bool" where
  "is_char_special st = (Mode st AND S_IFMT = S_IFCHR)"

definition other_read :: "Stat_t \<Rightarrow> bool" where
  "other_read st = bit (Mode st) 2"

definition other_write :: "Stat_t \<Rightarrow> bool" where
  "other_write st = bit (Mode st) 1"

text \<open>The path that is stat'd: \<^verbatim>\<open>HostPath\<close> if non-empty, else \<^verbatim>\<open>Path\<close>.\<close>

definition stat_path :: "Device \<Rightarrow> string" where
  "stat_path d = (if HostPath d = [] then Path d else HostPath d)"

subsection \<open>toEdits\<close>

text \<open>\<^verbatim>\<open>specs.Mount\<close> and \<^verbatim>\<open>specs.Hook\<close> entries of an edit set.\<close>

record MountSpec =
  msHostPath :: string
  msContainerPath :: string
  msOptions :: "string list"

record HookSpec =
  hsHookName :: string
  hsPath :: string
  hsArgs :: "string list"

text \<open>\<^verbatim>\<open>specs.ContainerEdits\<close>, restricted to the collections this package fills.\<close>

record ContainerEdits =
  DeviceNodes :: "DeviceNode list"
  Hooks :: "HookSpec list"
  Mounts :: "MountSpec list"
  AdditionalGIDs :: "32 word list"

definition toEdits :: "Lstat \<Rightarrow> bool \<Rightarrow> Device \<Rightarrow> error + ContainerEdits" where
  "toEdits lstat allowAdditionalGIDs d =
     (case toSpec d of
        Inl err \<Rightarrow> Inl err
      | Inr deviceNode \<Rightarrow>
          (let requiredGID = getRequiredGID lstat d;
               additionalGIDs =
                 (if allowAdditionalGIDs \<and> requiredGID \<noteq> 0 then [requiredGID] else [])
           in Inr \<lparr>DeviceNodes = [deviceNode], Hooks = [], Mounts = [],
                     AdditionalGIDs = additionalGIDs\<rparr>))"

section \<open>Properties of device.go\<close>

lemma six_bits: "bit (6::32 word) n = (n = 1 \<or> n = 2)"
proof -
  have "(6::32 word) = push_bit 1 1 OR push_bit 2 1" by simp
  then show ?thesis
    by (auto simp only: bit_or_iff bit_push_bit_iff bit_1_iff simp_thms possible_bit_word
        len_of_numeral_defs split: if_splits)
qed

lemma perm_mask: "(0x1FF::32 word) = mask 9"
  by (simp add: mask_eq_exp_minus_1)

lemma perm_other_bits:
  "(Perm m AND 6 = 0) = (\<not> bit m 2 \<and> \<not> bit m 1)"
proof -
  have pt: "bit (Perm m AND 6) n = (bit m n \<and> (n = 1 \<or> n = 2))" for n
    unfolding Perm_def perm_mask bit_and_iff bit_mask_iff six_bits by auto
  have "(Perm m AND 6 = 0) = (\<forall>n. \<not> bit (Perm m AND 6) n)"
  proof
    assume "Perm m AND 6 = 0"
    then show "\<forall>n. \<not> bit (Perm m AND 6) n" by simp
  next
    assume "\<forall>n. \<not> bit (Perm m AND 6) n"
    then show "Perm m AND 6 = 0" by (intro bit_eqI) simp
  qed
  also have "\<dots> = (\<forall>n. \<not> (bit m n \<and> (n = 1 \<or> n = 2)))"
    using pt by simp
  also have "\<dots> = (\<not> bit m 2 \<and> \<not> bit m 1)"
    by auto
  finally show ?thesis .
qed

lemma getRequiredGID_empty:
  "stat_path d = [] \<Longrightarrow> getRequiredGID lstat d = 0"
  by (simp add: getRequiredGID_def stat_path_def Let_def split: if_splits)

lemma getRequiredGID_nonempty:
  "stat_path d \<noteq> [] \<Longrightarrow>
   getRequiredGID lstat d =
     (case lstat (stat_path d) of
        None \<Rightarrow> 0
      | Some st \<Rightarrow>
          if is_char_special st \<and> \<not> other_read st \<and> \<not> other_write st then Gid st else 0)"
  by (auto simp add: getRequiredGID_def stat_path_def Let_def is_char_special_def
      other_read_def other_write_def perm_other_bits split: option.splits)

text \<open>Sample inputs: a device node \<^verbatim>\<open>/dev/nvidia0\<close> and host file systems in which it is
  a char device of mode 0660 owned by group 44, a char device of mode 0666, a regular
  file of mode 0660, and a char device of mode 0660 owned by group 0.\<close>

definition dev_nvidia0 :: Device where
  "dev_nvidia0 = \<lparr>HostPath = ''/dev/nvidia0'', Path = ''/dev/nvidia0''\<rparr>"

definition fs_with :: "string \<Rightarrow> Stat_t \<Rightarrow> Lstat" where
  "fs_with p st = (\<lambda>q. if q = p then Some st else None)"

definition st_chr_0660 :: Stat_t where
  "st_chr_0660 = \<lparr>Mode = 0x21B0, Gid = 44\<rparr>"

definition st_chr_0666 :: Stat_t where
  "st_chr_0666 = \<lparr>Mode = 0x21B6, Gid = 44\<rparr>"

definition st_reg_0660 :: Stat_t where
  "st_reg_0660 = \<lparr>Mode = 0x81B0, Gid = 44\<rparr>"

definition st_chr_0660_root :: Stat_t where
  "st_chr_0660_root = \<lparr>Mode = 0x21B0, Gid = 0\<rparr>"

lemma sample_stats:
  "is_char_special st_chr_0660" "\<not> other_read st_chr_0660" "\<not> other_write st_chr_0660"
  "is_char_special st_chr_0666" "other_read st_chr_0666" "other_write st_chr_0666"
  "\<not> is_char_special st_reg_0660"
  "is_char_special st_chr_0660_root" "\<not> other_read st_chr_0660_root"
  "\<not> other_write st_chr_0660_root"
  by (simp_all add: is_char_special_def other_read_def other_write_def S_IFMT_def
      S_IFCHR_def st_chr_0660_def st_chr_0666_def st_reg_0660_def st_chr_0660_root_def)

lemma sample_paths:
  "stat_path dev_nvidia0 = ''/dev/nvidia0''"
  "stat_path \<lparr>HostPath = [], Path = []\<rparr> = []"
  "fs_with ''/dev/nvidia0'' st ''/dev/nvidia0'' = Some st"
  by (simp_all add: stat_path_def dev_nvidia0_def fs_with_def)

text \<open>
  C1. \<^verbatim>\<open>getRequiredGID\<close> is a total function into \<^verbatim>\<open>uint32\<close> (it has no error
  result). It returns 0 when both paths are empty, when the path to stat (\<^verbatim>\<open>HostPath\<close>
  if non-empty, else \<^verbatim>\<open>Path\<close>) cannot be stat'd, and when the file is not char-special.
  For a char-special file it returns the owning group id when both the read and the
  write bit of "other" are absent, and 0 when either is set; for a non-zero group id the
  result is the group id exactly when both bits are absent.
\<close>

theorem getRequiredGID_spec:
  "(stat_path d = [] \<longrightarrow> getRequiredGID lstat d = 0) \<and>
   (stat_path d \<noteq> [] \<and> lstat (stat_path d) = None \<longrightarrow> getRequiredGID lstat d = 0) \<and>
   (stat_path d \<noteq> [] \<and> lstat (stat_path d) = Some st \<and> \<not> is_char_special st \<longrightarrow>
      getRequiredGID lstat d = 0) \<and>
   (stat_path d \<noteq> [] \<and> lstat (stat_path d) = Some st \<and> is_char_special st \<and>
      \<not> other_read st \<and> \<not> other_write st \<longrightarrow> getRequiredGID lstat d = Gid st) \<and>
   (stat_path d \<noteq> [] \<and> lstat (stat_path d) = Some st \<and> is_char_special st \<and>
      (other_read st \<or> other_write st) \<longrightarrow> getRequiredGID lstat d = 0) \<and>
   (stat_path d \<noteq> [] \<and> lstat (stat_path d) = Some st \<and> is_char_special st \<and>
      Gid st \<noteq> 0 \<longrightarrow>
      (getRequiredGID lstat d = Gid st) = (\<not> other_read st \<and> \<not> other_write st))"
proof (cases "stat_path d = []")
  case True
  then show ?thesis by (simp add: getRequiredGID_empty)
next
  case False
  then show ?thesis by (auto simp add: getRequiredGID_nonempty)
qed

theorem getRequiredGID_spec_witness:
  "getRequiredGID (\<lambda>q. None) \<lparr>HostPath = [], Path = []\<rparr> = 0 \<and>
   getRequiredGID (\<lambda>q. None) dev_nvidia0 = 0 \<and>
   getRequiredGID (fs_with ''/dev/nvidia0'' st_reg_0660) dev_nvidia0 = 0 \<and>
   getRequiredGID (fs_with ''/dev/nvidia0'' st_chr_0660) dev_nvidia0 = 44 \<and>
   getRequiredGID (fs_with ''/dev/nvidia0'' st_chr_0666) dev_nvidia0 = 0 \<and>
   44 \<noteq> (0 :: 32 word)"
proof -
  have a: "getRequiredGID (\<lambda>q. None) \<lparr>HostPath = [], Path = []\<rparr> = 0"
    using getRequiredGID_spec [of "\<lparr>HostPath = [], Path = []\<rparr>" "\<lambda>q. None" st_reg_0660]
    by (simp add: sample_paths)
  have b: "getRequiredGID (\<lambda>q. None) dev_nvidia0 = 0"
    using getRequiredGID_spec [of dev_nvidia0 "\<lambda>q. None" st_reg_0660]
    by (simp add: sample_paths)
  have c: "getRequiredGID (fs_with ''/dev/nvidia0'' st_reg_0660) dev_nvidia0 = 0"
    using getRequiredGID_spec [of dev_nvidia0 "fs_with ''/dev/nvidia0'' st_reg_0660" st_reg_0660]
    by (simp add: sample_paths sample_stats)
  have d: "getRequiredGID (fs_with ''/dev/nvidia0'' st_chr_0660) dev_nvidia0 = 44"
    using getRequiredGID_spec [of dev_nvidia0 "fs_with ''/dev/nvidia0'' st_chr_0660" st_chr_0660]
    by (simp add: sample_paths sample_stats) (simp add: st_chr_0660_def)
  have e: "getRequiredGID (fs_with ''/dev/nvidia0'' st_chr_0666) dev_nvidia0 = 0"
    using getRequiredGID_spec [of dev_nvidia0 "fs_with ''/dev/nvidia0'' st_chr_0666" st_chr_0666]
    by (simp add: sample_paths sample_stats)
  show ?thesis using a b c d e by simp
qed

text \<open>
  C10. The \<^verbatim>\<open>AdditionalGIDs\<close> of the edit that \<^verbatim>\<open>toEdits\<close> builds for a device never
  contains 0, with additional GIDs enabled or not: a GID is appended only when
  \<^verbatim>\<open>getRequiredGID\<close> is non-zero. So a char device that "other" can neither read nor
  write and whose owning group is group 0 yields no additional GID.
\<close>

theorem toEdits_no_zero_gid:
  "\<exists>e. toEdits lstat allow d = Inr e \<and>
       AdditionalGIDs e =
         (if allow \<and> getRequiredGID lstat d \<noteq> 0 then [getRequiredGID lstat d] else []) \<and>
       0 \<notin> set (AdditionalGIDs e) \<and>
       (stat_path d \<noteq> [] \<and> lstat (stat_path d) = Some st \<and> is_char_special st \<and>
        \<not> other_read st \<and> \<not> other_write st \<and> Gid st = 0 \<longrightarrow> AdditionalGIDs e = [])"
proof -
  have "stat_path d \<noteq> [] \<and> lstat (stat_path d) = Some st \<and> Gid st = 0 \<longrightarrow>
        getRequiredGID lstat d = 0"
    by (auto simp add: getRequiredGID_nonempty)
  then show ?thesis
    by (auto simp add: toEdits_def toSpec_def Let_def)
qed

theorem toEdits_no_zero_gid_witness:
  "toEdits (fs_with ''/dev/nvidia0'' st_chr_0660_root) True dev_nvidia0 =
     Inr \<lparr>DeviceNodes = [\<lparr>dnHostPath = [], dnPath = ''/dev/nvidia0''\<rparr>], Hooks = [],
          Mounts = [], AdditionalGIDs = []\<rparr>"
proof -
  have root_gid: "Gid st_chr_0660_root = 0"
    by (simp add: st_chr_0660_root_def)
  obtain e where e: "toEdits (fs_with ''/dev/nvidia0'' st_chr_0660_root) True dev_nvidia0 = Inr e"
    and gids: "AdditionalGIDs e = []"
    using toEdits_no_zero_gid
      [of "fs_with ''/dev/nvidia0'' st_chr_0660_root" True dev_nvidia0 st_chr_0660_root]
    by (auto simp add: sample_paths sample_stats root_gid)
  have "DeviceNodes e = [\<lparr>dnHostPath = [], dnPath = ''/dev/nvidia0''\<rparr>]"
       "Hooks e = []" "Mounts e = []"
    using e by (auto simp add: toEdits_def toSpec_def Let_def dev_nvidia0_def)
  with gids e show ?thesis by simp
qed

text \<open>
  C3, as stated: the device node's \<^verbatim>\<open>HostPath\<close> is empty exactly when the device's
  \<^verbatim>\<open>HostPath\<close> equals its \<^verbatim>\<open>Path\<close>. A device with an empty \<^verbatim>\<open>HostPath\<close> and a
  non-empty \<^verbatim>\<open>Path\<close> has the two fields different, and its node has no \<^verbatim>\<open>HostPath\<close>.
\<close>

theorem toSpec_hostPath_counterexample:
  "toSpec \<lparr>HostPath = [], Path = ''/dev/nvidia0''\<rparr> =
     Inr \<lparr>dnHostPath = [], dnPath = ''/dev/nvidia0''\<rparr> \<and>
   HostPath \<lparr>HostPath = [], Path = ''/dev/nvidia0''\<rparr> \<noteq>
     Path \<lparr>HostPath = [], Path = ''/dev/nvidia0''\<rparr>"
  by (simp add: toSpec_def)

text \<open>
  C3, amended. \<^verbatim>\<open>toSpec\<close> always returns a node, with \<^verbatim>\<open>Path\<close> unchanged. The
  node's \<^verbatim>\<open>HostPath\<close> is empty (left out of the serialized form) exactly when the
  device's \<^verbatim>\<open>HostPath\<close> equals its \<^verbatim>\<open>Path\<close> or is itself empty; for a device whose
  \<^verbatim>\<open>HostPath\<close> is non-empty and differs from \<^verbatim>\<open>Path\<close>, the node carries both fields
  unchanged, and they are distinct.
\<close>

theorem toSpec_hostPath:
  "\<exists>n. toSpec d = Inr n \<and> dnPath n = Path d \<and>
       (dnHostPath n = []) = (HostPath d = Path d \<or> HostPath d = []) \<and>
       (HostPath d \<noteq> Path d \<and> HostPath d \<noteq> [] \<longrightarrow>
          dnHostPath n = HostPath d \<and> dnHostPath n \<noteq> dnPath n)"
  by (auto simp add: toSpec_def Let_def)

theorem toSpec_hostPath_witness:
  "toSpec \<lparr>HostPath = ''/dev/dri/card1'', Path = ''/dev/dri/card0''\<rparr> =
     Inr \<lparr>dnHostPath = ''/dev/dri/card1'', dnPath = ''/dev/dri/card0''\<rparr>"
proof -
  obtain n where n: "toSpec \<lparr>HostPath = ''/dev/dri/card1'', Path = ''/dev/dri/card0''\<rparr> = Inr n"
    and "dnPath n = ''/dev/dri/card0''" and "dnHostPath n = ''/dev/dri/card1''"
    using toSpec_hostPath [of "\<lparr>HostPath = ''/dev/dri/card1'', Path = ''/dev/dri/card0''\<rparr>"]
    by auto
  then show ?thesis by simp
qed

section \<open>internal/edits/api.go and lib.go\<close>

subsection \<open>Data\<close>

text \<open>\<^verbatim>\<open>discover.Mount\<close> and \<^verbatim>\<open>discover.Hook\<close>, as the discoverers return them.\<close>

record Mount =
  mHostPath :: string
  mPath :: string
  mOptions :: "string list"

record Hook =
  hLifecycle :: string
  hPath :: string
  hArgs :: "string list"

text \<open>\<^verbatim>\<open>discover.Discover\<close>: what each of the three methods answers, a list or an
  error. The calls that \<^verbatim>\<open>EditsFromDiscoverer\<close> makes are recorded in order.\<close>

record Discover =
  dDevices :: "error + Device list"
  dMounts :: "error + Mount list"
  dHooks :: "error + Hook list"

datatype call = CallDevices | CallMounts | CallHooks

text \<open>\<^verbatim>\<open>NewContainerEdits\<close>: an edit set with a non-nil, empty \<^verbatim>\<open>specs.ContainerEdits\<close>.\<close>

definition NewContainerEdits :: ContainerEdits where
  "NewContainerEdits = \<lparr>DeviceNodes = [], Hooks = [], Mounts = [], AdditionalGIDs = []\<rparr>"

text \<open>\<^verbatim>\<open>cdi.ContainerEdits.Append\<close> of the CDI library, on two non-nil edit sets: each
  collection of the second is appended to the same collection of the first.\<close>

definition Append :: "ContainerEdits \<Rightarrow> ContainerEdits \<Rightarrow> ContainerEdits" where
  "Append e o' =
     \<lparr>DeviceNodes = DeviceNodes e @ DeviceNodes o',
      Hooks = Hooks e @ Hooks o',
      Mounts = Mounts e @ Mounts o',
      AdditionalGIDs = AdditionalGIDs e @ AdditionalGIDs o'\<rparr>"

text \<open>Modelled from the spec: \<^verbatim>\<open>mount.toEdits\<close> and \<^verbatim>\<open>hook.toEdits\<close> of package
  \<^verbatim>\<open>edits\<close> are not among the source files. The spec: "for every mount, appends a
  mount-edit entry unchanged; for every hook, appends a hook-edit entry unchanged", a
  mount being \<^verbatim>\<open>{ HostPath, ContainerPath, Options[] }\<close> and a hook
  \<^verbatim>\<open>{ Lifecycle-phase, ExecutablePath, Args[] }\<close>.\<close>

definition mount_toSpec :: "Mount \<Rightarrow> MountSpec" where
  "mount_toSpec m =
     \<lparr>msHostPath = mHostPath m, msContainerPath = mPath m, msOptions = mOptions m\<rparr>"

definition mount_toEdits :: "Mount \<Rightarrow> ContainerEdits" where
  "mount_toEdits m =
     \<lparr>DeviceNodes = [], Hooks = [], Mounts = [mount_toSpec m], AdditionalGIDs = []\<rparr>"

definition hook_toSpec :: "Hook \<Rightarrow> HookSpec" where
  "hook_toSpec h = \<lparr>hsHookName = hLifecycle h, hsPath = hPath h, hsArgs = hArgs h\<rparr>"

definition hook_toEdits :: "Hook \<Rightarrow> ContainerEdits" where
  "hook_toEdits h =
     \<lparr>DeviceNodes = [], Hooks = [hook_toSpec h], Mounts = [], AdditionalGIDs = []\<rparr>"

subsection \<open>EditsFromDiscoverer\<close>

text \<open>The three loops of \<^verbatim>\<open>EditsFromDiscoverer\<close> over the devices, the mounts and the
  hooks; the first stops at a device whose edits cannot be built.\<close>

fun append_devices :: "Lstat \<Rightarrow> bool \<Rightarrow> Device list \<Rightarrow> ContainerEdits \<Rightarrow> error + ContainerEdits"
  where
  "append_devices lstat allow [] c = Inr c"
| "append_devices lstat allow (d # ds) c =
     (case toEdits lstat allow d of
        Inl err \<Rightarrow> Inl (Wrap ''failed to create container edits for device'' err)
      | Inr edits \<Rightarrow> append_devices lstat allow ds (Append c edits))"

fun append_mounts :: "Mount list \<Rightarrow> ContainerEdits \<Rightarrow> ContainerEdits" where
  "append_mounts [] c = c"
| "append_mounts (m # ms) c = append_mounts ms (Append c (mount_toEdits m))"

fun append_hooks :: "Hook list \<Rightarrow> ContainerEdits \<Rightarrow> ContainerEdits" where
  "append_hooks [] c = c"
| "append_hooks (h # hs) c = append_hooks hs (Append c (hook_toEdits h))"

text \<open>The result is Go's pair \<^verbatim>\<open>(*cdi.ContainerEdits, error)\<close>, each \<open>None\<close> for nil,
  after the list of the calls made on the discoverer.\<close>

definition EditsFromDiscoverer ::
  "Lstat \<Rightarrow> bool \<Rightarrow> Discover \<Rightarrow> call list \<times> ContainerEdits option \<times> error option" where
  "EditsFromDiscoverer lstat allowAdditionalGIDs d =
     (case dDevices d of
        Inl err \<Rightarrow> ([CallDevices], None, Some (Wrap ''failed to discover devices'' err))
      | Inr devices \<Rightarrow>
     (case dMounts d of
        Inl err \<Rightarrow>
          ([CallDevices, CallMounts], None, Some (Wrap ''failed to discover mounts'' err))
      | Inr mounts \<Rightarrow>
     (case dHooks d of
        Inl err \<Rightarrow>
          ([CallDevices, CallMounts, CallHooks], None,
           Some (Wrap ''failed to discover hooks'' err))
      | Inr hooks \<Rightarrow>
     (case append_devices lstat allowAdditionalGIDs devices NewContainerEdits of
        Inl err \<Rightarrow> ([CallDevices, CallMounts, CallHooks], None, Some err)
      | Inr c \<Rightarrow>
          ([CallDevices, CallMounts, CallHooks],
           Some (append_hooks hooks (append_mounts mounts c)), None)))))"

subsection \<open>Modify\<close>

text \<open>The logger collects its lines. \<^verbatim>\<open>%v\<close> prints a string as it is and a list of
  strings between brackets, separated by spaces.\<close>

datatype log_entry = Info string | Warning string | Debug string

fun join_strings :: "string \<Rightarrow> string list \<Rightarrow> string" where
  "join_strings sep [] = []"
| "join_strings sep [x] = x"
| "join_strings sep (x # y # ys) = x @ sep @ join_strings sep (y # ys)"

definition fmt_list :: "string list \<Rightarrow> string" where
  "fmt_list xs = ''['' @ join_strings '' '' xs @ '']''"

text \<open>The \<^verbatim>\<open>edits\<close> struct embeds a \<^verbatim>\<open>cdi.ContainerEdits\<close>, which holds a pointer to a
  \<^verbatim>\<open>specs.ContainerEdits\<close> (\<open>None\<close> for nil). The receiver of \<^verbatim>\<open>Modify\<close> is a pointer
  to the struct, \<open>None\<close> for nil. \<^verbatim>\<open>Apply\<close> is the CDI library's and is a parameter: it
  answers an edit set and a spec with an error or nil, and the spec as it left it.\<close>

record edits =
  edContainerEdits :: "ContainerEdits option"

definition Modify ::
  "(ContainerEdits \<Rightarrow> 'spec \<Rightarrow> error option \<times> 'spec) \<Rightarrow> edits option \<Rightarrow> 'spec \<Rightarrow>
   error option \<times> 'spec \<times> log_entry list" where
  "Modify Apply e spec =
     (case e of
        None \<Rightarrow> (None, spec, [])
      | Some ed \<Rightarrow>
     (case edContainerEdits ed of
        None \<Rightarrow> (None, spec, [])
      | Some c \<Rightarrow>
          (let logs =
                 [Info ''Mounts:''] @
                 map (\<lambda>mount. Info (''Mounting '' @ msHostPath mount @ '' at '' @
                                     msContainerPath mount)) (Mounts c) @
                 [Info ''Devices:''] @
                 map (\<lambda>device. Info (''Injecting '' @ dnPath device)) (DeviceNodes c) @
                 [Info ''Hooks:''] @
                 map (\<lambda>hook. Info (''Injecting '' @ hsPath hook @ '' '' @
                                    fmt_list (hsArgs hook))) (Hooks c);
               (err, spec') = Apply c spec
           in (err, spec', logs))))"

section \<open>Properties of api.go and lib.go\<close>

text \<open>
  C9. \<^verbatim>\<open>Modify\<close> on a nil applier, or on an applier whose underlying container edits
  are nil, returns no error, leaves the spec as it was (whatever \<^verbatim>\<open>Apply\<close> would have
  done to it) and logs nothing.
\<close>

theorem Modify_nil_noop:
  "(e = None \<or> (\<exists>ed. e = Some ed \<and> edContainerEdits ed = None)) \<longrightarrow>
   Modify Apply e spec = (None, spec, [])"
  by (auto simp add: Modify_def)

theorem Modify_nil_noop_witness:
  "Modify (\<lambda>c (s::nat). (Some (Err ''malformed spec''), Suc s)) None 7 = (None, 7, []) \<and>
   Modify (\<lambda>c (s::nat). (Some (Err ''malformed spec''), Suc s))
     (Some \<lparr>edContainerEdits = None\<rparr>) 7 = (None, 7, [])"
proof -
  have a: "Modify (\<lambda>c (s::nat). (Some (Err ''malformed spec''), Suc s)) None 7 = (None, 7, [])"
    using Modify_nil_noop [of None "\<lambda>c (s::nat). (Some (Err ''malformed spec''), Suc s)" 7]
    by simp
  have b: "Modify (\<lambda>c (s::nat). (Some (Err ''malformed spec''), Suc s))
     (Some \<lparr>edContainerEdits = None\<rparr>) 7 = (None, 7, [])"
    using Modify_nil_noop [of "Some \<lparr>edContainerEdits = None\<rparr>"
        "\<lambda>c (s::nat). (Some (Err ''malformed spec''), Suc s)" 7]
    by simp
  show ?thesis using a b by simp
qed

lemma append_devices_result:
  "append_devices lstat allow ds c =
     Inr \<lparr>DeviceNodes = DeviceNodes c @
            map (\<lambda>dv. \<lparr>dnHostPath = (if HostPath dv = Path dv then [] else HostPath dv),
                        dnPath = Path dv\<rparr>) ds,
          Hooks = Hooks c,
          Mounts = Mounts c,
          AdditionalGIDs = AdditionalGIDs c @
            concat (map (\<lambda>dv. if allow \<and> getRequiredGID lstat dv \<noteq> 0
                                then [getRequiredGID lstat dv] else []) ds)\<rparr>"
proof (induction ds arbitrary: c)
  case Nil
  then show ?case by simp
next
  case (Cons dv ds)
  have step: "toEdits lstat allow dv =
      Inr \<lparr>DeviceNodes = [\<lparr>dnHostPath = (if HostPath dv = Path dv then [] else HostPath dv),
                              dnPath = Path dv\<rparr>],
           Hooks = [], Mounts = [],
           AdditionalGIDs = (if allow \<and> getRequiredGID lstat dv \<noteq> 0
                             then [getRequiredGID lstat dv] else [])\<rparr>"
    by (simp add: toEdits_def toSpec_def Let_def)
  show ?case
    by (simp add: step Cons.IH Append_def)
qed

lemma append_mounts_result:
  "append_mounts ms c = c\<lparr>Mounts := Mounts c @ map mount_toSpec ms\<rparr>"
  by (induction ms arbitrary: c) (simp_all add: Append_def mount_toEdits_def)

lemma append_hooks_result:
  "append_hooks hs c = c\<lparr>Hooks := Hooks c @ map hook_toSpec hs\<rparr>"
  by (induction hs arbitrary: c) (simp_all add: Append_def hook_toEdits_def)

text \<open>
  C2. \<^verbatim>\<open>EditsFromDiscoverer\<close> calls \<^verbatim>\<open>Devices()\<close>, \<^verbatim>\<open>Mounts()\<close> and \<^verbatim>\<open>Hooks()\<close> in that
  order and stops at the first that fails, returning a nil edit set and the error
  wrapped with the name of the failing phase. When all three succeed it returns, with
  no error, an edit set that holds one device node per discovered device in order
  (\<^verbatim>\<open>HostPath\<close> cleared where it equals \<^verbatim>\<open>Path\<close>), the additional GIDs computed per
  device when enabled, one mount entry per discovered mount and one hook entry per
  discovered hook.
\<close>

theorem EditsFromDiscoverer_spec:
  "(dDevices d = Inl err \<longrightarrow>
      EditsFromDiscoverer lstat allow d =
        ([CallDevices], None, Some (Wrap ''failed to discover devices'' err))) \<and>
   (dDevices d = Inr ds \<and> dMounts d = Inl err \<longrightarrow>
      EditsFromDiscoverer lstat allow d =
        ([CallDevices, CallMounts], None, Some (Wrap ''failed to discover mounts'' err))) \<and>
   (dDevices d = Inr ds \<and> dMounts d = Inr ms \<and> dHooks d = Inl err \<longrightarrow>
      EditsFromDiscoverer lstat allow d =
        ([CallDevices, CallMounts, CallHooks], None,
         Some (Wrap ''failed to discover hooks'' err))) \<and>
   (dDevices d = Inr ds \<and> dMounts d = Inr ms \<and> dHooks d = Inr hs \<longrightarrow>
      (\<exists>c. EditsFromDiscoverer lstat allow d =
             ([CallDevices, CallMounts, CallHooks], Some c, None) \<and>
           DeviceNodes c =
             map (\<lambda>dv. \<lparr>dnHostPath = (if HostPath dv = Path dv then [] else HostPath dv),
                         dnPath = Path dv\<rparr>) ds \<and>
           length (DeviceNodes c) = length ds \<and>
           AdditionalGIDs c =
             concat (map (\<lambda>dv. if allow \<and> getRequiredGID lstat dv \<noteq> 0
                                 then [getRequiredGID lstat dv] else []) ds) \<and>
           Mounts c = map mount_toSpec ms \<and> length (Mounts c) = length ms \<and>
           Hooks c = map hook_toSpec hs \<and> length (Hooks c) = length hs))"
  by (simp add: EditsFromDiscoverer_def append_devices_result append_mounts_result
      append_hooks_result NewContainerEdits_def)

text \<open>Sample discoverers: two devices, one mount and one hook; and the same with a
  failing \<^verbatim>\<open>Mounts()\<close>.\<close>

definition dev_nvidiactl :: Device where
  "dev_nvidiactl = \<lparr>HostPath = ''/host/dev/nvidiactl'', Path = ''/dev/nvidiactl''\<rparr>"

definition sample_mount :: Mount where
  "sample_mount = \<lparr>mHostPath = ''/usr/lib64/libcuda.so.1'', mPath = ''/usr/lib64/libcuda.so.1'',
                   mOptions = [''ro'', ''bind'']\<rparr>"

definition sample_hook :: Hook where
  "sample_hook = \<lparr>hLifecycle = ''createContainer'', hPath = ''/usr/bin/nvidia-ctk'',
                  hArgs = [''nvidia-ctk'', ''hook'', ''update-ldcache'']\<rparr>"

definition sample_discoverer :: Discover where
  "sample_discoverer =
     \<lparr>dDevices = Inr [dev_nvidia0, dev_nvidiactl], dMounts = Inr [sample_mount],
      dHooks = Inr [sample_hook]\<rparr>"

definition failing_mounts_discoverer :: Discover where
  "failing_mounts_discoverer =
     \<lparr>dDevices = Inr [dev_nvidia0, dev_nvidiactl], dMounts = Inl (Err ''no driver root''),
      dHooks = Inr [sample_hook]\<rparr>"

lemma sample_gids:
  "getRequiredGID (fs_with ''/dev/nvidia0'' st_chr_0660) dev_nvidia0 = 44"
  "getRequiredGID (fs_with ''/dev/nvidia0'' st_chr_0660) dev_nvidiactl = 0"
proof -
  have "stat_path dev_nvidia0 \<noteq> []"
    by (simp add: sample_paths)
  then show "getRequiredGID (fs_with ''/dev/nvidia0'' st_chr_0660) dev_nvidia0 = 44"
    by (simp add: getRequiredGID_nonempty sample_paths sample_stats) (simp add: st_chr_0660_def)
  have "stat_path dev_nvidiactl = ''/host/dev/nvidiactl''"
    by (simp add: stat_path_def dev_nvidiactl_def)
  then show "getRequiredGID (fs_with ''/dev/nvidia0'' st_chr_0660) dev_nvidiactl = 0"
    by (simp add: getRequiredGID_nonempty fs_with_def)
qed

theorem EditsFromDiscoverer_spec_witness:
  "EditsFromDiscoverer (fs_with ''/dev/nvidia0'' st_chr_0660) True sample_discoverer =
     ([CallDevices, CallMounts, CallHooks],
      Some \<lparr>DeviceNodes = [\<lparr>dnHostPath = [], dnPath = ''/dev/nvidia0''\<rparr>,
                           \<lparr>dnHostPath = ''/host/dev/nvidiactl'', dnPath = ''/dev/nvidiactl''\<rparr>],
            Hooks = [\<lparr>hsHookName = ''createContainer'', hsPath = ''/usr/bin/nvidia-ctk'',
                      hsArgs = [''nvidia-ctk'', ''hook'', ''update-ldcache'']\<rparr>],
            Mounts = [\<lparr>msHostPath = ''/usr/lib64/libcuda.so.1'',
                       msContainerPath = ''/usr/lib64/libcuda.so.1'',
                       msOptions = [''ro'', ''bind'']\<rparr>],
            AdditionalGIDs = [44]\<rparr>,
      None) \<and>
   EditsFromDiscoverer (fs_with ''/dev/nvidia0'' st_chr_0660) True failing_mounts_discoverer =
     ([CallDevices, CallMounts], None,
      Some (Wrap ''failed to discover mounts'' (Err ''no driver root'')))"
proof -
  let ?fs = "fs_with ''/dev/nvidia0'' st_chr_0660"
  obtain c where r: "EditsFromDiscoverer ?fs True sample_discoverer =
        ([CallDevices, CallMounts, CallHooks], Some c, None)"
    and dn: "DeviceNodes c =
        map (\<lambda>dv. \<lparr>dnHostPath = (if HostPath dv = Path dv then [] else HostPath dv),
                    dnPath = Path dv\<rparr>) [dev_nvidia0, dev_nvidiactl]"
    and gids: "AdditionalGIDs c =
        concat (map (\<lambda>dv. if True \<and> getRequiredGID ?fs dv \<noteq> 0
                            then [getRequiredGID ?fs dv] else []) [dev_nvidia0, dev_nvidiactl])"
    and ms: "Mounts c = map mount_toSpec [sample_mount]"
    and hs: "Hooks c = map hook_toSpec [sample_hook]"
    using EditsFromDiscoverer_spec [of sample_discoverer "Err ''x''" ?fs True
        "[dev_nvidia0, dev_nvidiactl]" "[sample_mount]" "[sample_hook]"]
    by (auto simp add: sample_discoverer_def)
  have c: "c = \<lparr>DeviceNodes = [\<lparr>dnHostPath = [], dnPath = ''/dev/nvidia0''\<rparr>,
                           \<lparr>dnHostPath = ''/host/dev/nvidiactl'', dnPath = ''/dev/nvidiactl''\<rparr>],
            Hooks = [\<lparr>hsHookName = ''createContainer'', hsPath = ''/usr/bin/nvidia-ctk'',
                      hsArgs = [''nvidia-ctk'', ''hook'', ''update-ldcache'']\<rparr>],
            Mounts = [\<lparr>msHostPath = ''/usr/lib64/libcuda.so.1'',
                       msContainerPath = ''/usr/lib64/libcuda.so.1'',
                       msOptions = [''ro'', ''bind'']\<rparr>],
            AdditionalGIDs = [44]\<rparr>"
  proof -
    have g: "AdditionalGIDs c = [44]"
      using gids by (simp add: sample_gids)
    have n: "DeviceNodes c = [\<lparr>dnHostPath = [], dnPath = ''/dev/nvidia0''\<rparr>,
        \<lparr>dnHostPath = ''/host/dev/nvidiactl'', dnPath = ''/dev/nvidiactl''\<rparr>]"
      using dn by (simp add: dev_nvidia0_def dev_nvidiactl_def)
    show ?thesis
      using g n ms hs
      by (cases c) (simp add: mount_toSpec_def hook_toSpec_def sample_mount_def sample_hook_def)
  qed
  have f: "EditsFromDiscoverer ?fs True failing_mounts_discoverer =
     ([CallDevices, CallMounts], None,
      Some (Wrap ''failed to discover mounts'' (Err ''no driver root'')))"
    using EditsFromDiscoverer_spec [of failing_mounts_discoverer "Err ''no driver root''" ?fs
        True "[dev_nvidia0, dev_nvidiactl]" "[]" "[]"]
    by (simp add: failing_mounts_discoverer_def)
  show ?thesis using r c f by simp
qed

section \<open>Go's strings and path/filepath packages\<close>

text \<open>The functions of Go's standard library that the sources call, on Unix, where the
  separator is \<^verbatim>\<open>/\<close> and there is no volume name. A Go string is a sequence of bytes,
  here a \<^typ>\<open>string\<close>.\<close>

subsection \<open>strings\<close>

definition HasPrefix :: "string \<Rightarrow> string \<Rightarrow> bool" where
  "HasPrefix s p = prefix p s"

definition HasSuffix :: "string \<Rightarrow> string \<Rightarrow> bool" where
  "HasSuffix s p = suffix p s"

definition TrimPrefix :: "string \<Rightarrow> string \<Rightarrow> string" where
  "TrimPrefix s p = (if HasPrefix s p then drop (length p) s else s)"

definition TrimSuffix :: "string \<Rightarrow> string \<Rightarrow> string" where
  "TrimSuffix s p = (if HasSuffix s p then take (length s - length p) s else s)"

text \<open>\<^verbatim>\<open>strings.Index\<close>: the index of the first instance of \<open>sep\<close> in \<open>s\<close>, \<open>None\<close> for
  Go's -1.\<close>

fun Index :: "string \<Rightarrow> string \<Rightarrow> nat option" where
  "Index [] sep = (if sep = [] then Some 0 else None)"
| "Index (c # cs) sep =
     (if prefix sep (c # cs) then Some 0 else map_option Suc (Index cs sep))"

lemma Index_Some_nonempty: "Index s sep = Some m \<Longrightarrow> sep \<noteq> [] \<Longrightarrow> s \<noteq> []"
  by (cases s) auto

text \<open>\<^verbatim>\<open>strings.Split\<close> for a non-empty separator: the substrings between the instances
  of \<open>sep\<close>, found from left to right. (For an empty separator Go splits after each
  UTF-8 sequence; no caller here passes one, and the model then returns \<open>s\<close> whole.)\<close>

function Split :: "string \<Rightarrow> string \<Rightarrow> string list" where
  "Split s sep =
     (if sep = [] then [s]
      else case Index s sep of
        None \<Rightarrow> [s]
      | Some m \<Rightarrow> take m s # Split (drop (m + length sep) s) sep)"
  by pat_completeness auto
termination
proof (relation "measure (\<lambda>(s, sep). length s)")
  show "wf (measure (\<lambda>(s, sep). length s))" by simp
next
  fix s sep :: string and m :: nat
  assume "sep \<noteq> []" and "Index s sep = Some m"
  then have "s \<noteq> []" by (rule Index_Some_nonempty [rotated])
  with \<open>sep \<noteq> []\<close> show "((drop (m + length sep) s, sep), (s, sep)) \<in> measure (\<lambda>(s, sep). length s)"
    by (cases sep) auto
qed

declare Split.simps [simp del]

subsection \<open>path/filepath\<close>

definition Separator :: char where
  "Separator = CHR ''/''"

text \<open>\<^verbatim>\<open>filepath.Base\<close>: the last element of the path, after trailing separators are
  removed; \<^verbatim>\<open>.\<close> for an empty path and a single separator for a path of separators.\<close>

definition Base :: "string \<Rightarrow> string" where
  "Base path =
     (if path = [] then ''.''
      else
        let path = rev (dropWhile (\<lambda>c. c = Separator) (rev path));
            path = rev (takeWhile (\<lambda>c. c \<noteq> Separator) (rev path))
        in if path = [] then [Separator] else path)"

text \<open>The elements of a path between its separators, empty ones included.\<close>

fun elements :: "string \<Rightarrow> string list" where
  "elements [] = [[]]"
| "elements (c # cs) =
     (if c = Separator then [] # elements cs
      else case elements cs of
        [] \<Rightarrow> [[c]]
      | e # es \<Rightarrow> (c # e) # es)"

text \<open>\<^verbatim>\<open>filepath.Clean\<close>, element by element: empty elements and \<^verbatim>\<open>.\<close> are dropped; \<^verbatim>\<open>..\<close>
  removes the element before it, is dropped at the root, and is kept at the start of a
  path that is not rooted. \<open>out\<close> holds the elements written so far, the last one
  first.\<close>

fun clean_elements :: "bool \<Rightarrow> string list \<Rightarrow> string list \<Rightarrow> string list" where
  "clean_elements rooted [] out = rev out"
| "clean_elements rooted (e # es) out =
     (if e = [] \<or> e = ''.'' then clean_elements rooted es out
      else if e = ''..'' then
        (case out of
           [] \<Rightarrow> if rooted then clean_elements rooted es out
                 else clean_elements rooted es [''..'']
         | t # ts \<Rightarrow> if t = ''..'' then clean_elements rooted es (''..'' # out)
                     else clean_elements rooted es ts)
      else clean_elements rooted es (e # out))"

definition Clean :: "string \<Rightarrow> string" where
  "Clean path =
     (if path = [] then ''.''
      else
        let rooted = (hd path = Separator);
            out = join_strings [Separator] (clean_elements rooted (elements path) [])
        in if rooted then Separator # out
           else if out = [] then ''.'' else out)"

text \<open>\<^verbatim>\<open>filepath.Dir\<close>: all but the last element of the path, cleaned.\<close>

definition Dir :: "string \<Rightarrow> string" where
  "Dir path = Clean (rev (dropWhile (\<lambda>c. c \<noteq> Separator) (rev path)))"

text \<open>\<^verbatim>\<open>filepath.Join\<close>: the elements from the first non-empty one on, joined with
  separators and cleaned; the empty string when every element is empty.\<close>

definition Join :: "string list \<Rightarrow> string" where
  "Join elem =
     (case dropWhile (\<lambda>e. e = []) elem of
        [] \<Rightarrow> []
      | es \<Rightarrow> Clean (join_strings [Separator] es))"

text \<open>\<^verbatim>\<open>filepath.Match\<close> for a pattern of literal bytes, \<^verbatim>\<open>?\<close> and \<^verbatim>\<open>*\<close> (no character class
  and no escape, so the pattern is well formed and Go's error result is nil): \<^verbatim>\<open>*\<close>
  matches any sequence of non-separator bytes and \<^verbatim>\<open>?\<close> one non-separator character. A
  multi-byte character has no byte in common with ASCII, so a \<^verbatim>\<open>?\<close> that is followed by
  \<^verbatim>\<open>*\<close>, the only use here, may take one byte.\<close>

function Match :: "string \<Rightarrow> string \<Rightarrow> bool" where
  "Match [] name = (name = [])"
| "Match (p # ps) [] = (p = CHR ''*'' \<and> Match ps [])"
| "Match (p # ps) (c # cs) =
     (if p = CHR ''*'' then Match ps (c # cs) \<or> (c \<noteq> Separator \<and> Match (p # ps) cs)
      else if p = CHR ''?'' then c \<noteq> Separator \<and> Match ps cs
      else p = c \<and> Match ps cs)"
  by pat_completeness auto
termination
  by (relation "measure (\<lambda>(p, n). length p + length n)") auto

section \<open>The ldcache update hook (package discover)\<close>

text \<open>\<^verbatim>\<open>%v\<close> of an error prints its message; a wrapped error prints as
  \<^verbatim>\<open>message: cause\<close>.\<close>

fun error_string :: "error \<Rightarrow> string" where
  "error_string (Err msg) = msg"
| "error_string (Wrap msg err) = msg @ '': '' @ error_string err"

definition nvidiaCTKDefaultFilePath :: string where
  "nvidiaCTKDefaultFilePath = ''/usr/bin/nvidia-ctk''"

text \<open>\<^verbatim>\<open>cdi.CreateContainerHook\<close> of the CDI library.\<close>

definition CreateContainerHook :: string where
  "CreateContainerHook = ''createContainer''"

text \<open>\<^verbatim>\<open>lookup.Locator\<close>: \<^verbatim>\<open>Locate\<close> answers a pattern with the paths found, or an
  error.\<close>

type_synonym Locator = "string \<Rightarrow> error + string list"

record ldconfig =
  mountsFrom :: Discover
  lookup :: Locator
  nvidiaCTKExecutablePath :: string

definition isLibName :: "string \<Rightarrow> bool" where
  "isLibName filename =
     (let base = Base filename;
          isLib = Match ''lib?*.so*'' base
      in if \<not> isLib then False
         else
           let parts = Split base ''.so''
           in if length parts = 1 then True
              else last parts = [] \<or> HasPrefix (last parts) ''.'')"

fun getLibraryPaths :: "Mount list \<Rightarrow> string list" where
  "getLibraryPaths [] = []"
| "getLibraryPaths (m # ms) =
     (if \<not> isLibName (mPath m) then getLibraryPaths ms
      else mPath m # getLibraryPaths ms)"

text \<open>The loop of \<^verbatim>\<open>uniqueFolders\<close>, with the list \<open>paths\<close> built so far and the map
  \<open>checked\<close> of the folders seen (a missing key reads as false).\<close>

fun uniqueFolders_loop :: "string list \<Rightarrow> string list \<Rightarrow> (string \<Rightarrow> bool) \<Rightarrow> string list"
  where
  "uniqueFolders_loop [] paths checked = paths"
| "uniqueFolders_loop (l # ls) paths checked =
     (let dir = Dir l
      in if dir = [] then uniqueFolders_loop ls paths checked
         else if checked dir then uniqueFolders_loop ls paths checked
         else uniqueFolders_loop ls (paths @ [dir]) (checked(dir := True)))"

definition uniqueFolders :: "string list \<Rightarrow> string list" where
  "uniqueFolders libraries = uniqueFolders_loop libraries [] (\<lambda>dir. False)"

definition CreateLDCacheUpdateHook ::
  "Locator \<Rightarrow> string \<Rightarrow> string \<Rightarrow> string list \<Rightarrow> Hook \<times> log_entry list" where
  "CreateLDCacheUpdateHook lookup' execuable defaultPath libraries =
     (let (hookPath, logs) =
            (case lookup' execuable of
               Inl err \<Rightarrow>
                 (defaultPath,
                  [Warning (''Failed to locate '' @ execuable @ '': '' @ error_string err)])
             | Inr targets \<Rightarrow>
                 (case targets of
                    [] \<Rightarrow> (defaultPath, [Warning (execuable @ '' not found'')])
                  | t # ts \<Rightarrow>
                      (t, [Debug (''Found '' @ execuable @ '' candidates: '' @
                                  fmt_list targets)])));
          logs = logs @ [Debug (''Using NVIDIA Container Toolkit CLI path '' @ hookPath)];
          args = [Base hookPath, ''hook'', ''update-ldcache''] @
                 concat (map (\<lambda>f. [''--folder'', f]) (uniqueFolders libraries))
      in (\<lparr>hLifecycle = CreateContainerHook, hPath = hookPath, hArgs = args\<rparr>, logs))"

text \<open>\<^verbatim>\<open>ldconfig.Hooks\<close>: the hooks or an error, and the lines logged.\<close>

definition ldconfig_Hooks :: "ldconfig \<Rightarrow> (error + Hook list) \<times> log_entry list" where
  "ldconfig_Hooks d =
     (case dMounts (mountsFrom d) of
        Inl err \<Rightarrow>
          (Inl (Err (''failed to discover mounts for ldcache update: '' @ error_string err)),
           [])
      | Inr mounts \<Rightarrow>
          (let (h, logs) =
                 CreateLDCacheUpdateHook (lookup d) (nvidiaCTKExecutablePath d)
                   nvidiaCTKDefaultFilePath (getLibraryPaths mounts)
           in (Inr [h], logs)))"

section \<open>Properties of the ldcache update hook\<close>

text \<open>The words of the spec, "deduplicated in first-seen order": each element is kept
  where it first occurs, and dropped from the rest.\<close>

fun first_occurrences :: "'a list \<Rightarrow> 'a list" where
  "first_occurrences [] = []"
| "first_occurrences (x # xs) = x # filter (\<lambda>y. y \<noteq> x) (first_occurrences xs)"

lemma set_first_occurrences: "set (first_occurrences xs) = set xs"
  by (induction xs) auto

lemma distinct_first_occurrences: "distinct (first_occurrences xs)"
  by (induction xs) auto

lemma Clean_nonempty: "Clean path \<noteq> []"
  by (simp add: Clean_def Let_def)

lemma Dir_nonempty: "Dir path \<noteq> []"
  by (simp add: Dir_def Clean_nonempty)

lemma uniqueFolders_loop_eq:
  "uniqueFolders_loop ls paths (\<lambda>d. d \<in> set paths) =
     paths @ filter (\<lambda>d. d \<notin> set paths) (first_occurrences (map Dir ls))"
proof (induction ls arbitrary: paths)
  case Nil
  then show ?case by simp
next
  case (Cons l ls)
  show ?case
  proof (cases "Dir l \<in> set paths")
    case True
    have "filter (\<lambda>d. d \<notin> set paths) (filter (\<lambda>y. y \<noteq> Dir l) (first_occurrences (map Dir ls)))
        = filter (\<lambda>d. d \<notin> set paths) (first_occurrences (map Dir ls))"
      using True by (auto intro: filter_cong)
    with True show ?thesis
      by (simp add: Dir_nonempty Cons.IH)
  next
    case False
    have upd: "(\<lambda>d. d \<in> set paths)(Dir l := True) = (\<lambda>d. d \<in> set (paths @ [Dir l]))"
      by (rule ext) simp
    have "uniqueFolders_loop (l # ls) paths (\<lambda>d. d \<in> set paths) =
        uniqueFolders_loop ls (paths @ [Dir l]) ((\<lambda>d. d \<in> set paths)(Dir l := True))"
      using False by (simp add: Let_def Dir_nonempty del: fun_upd_apply)
    also have "\<dots> = uniqueFolders_loop ls (paths @ [Dir l]) (\<lambda>d. d \<in> set (paths @ [Dir l]))"
      by (simp only: upd)
    also have "\<dots> = (paths @ [Dir l]) @
        filter (\<lambda>d. d \<notin> set (paths @ [Dir l])) (first_occurrences (map Dir ls))"
      by (rule Cons.IH)
    also have "\<dots> = paths @ filter (\<lambda>d. d \<notin> set paths) (first_occurrences (map Dir (l # ls)))"
      using False by (auto intro: filter_cong)
    finally show ?thesis .
  qed
qed

lemma uniqueFolders_eq: "uniqueFolders libraries = first_occurrences (map Dir libraries)"
  using uniqueFolders_loop_eq [of libraries "[]"] by (simp add: uniqueFolders_def)

lemma getLibraryPaths_eq: "getLibraryPaths mounts = filter isLibName (map mPath mounts)"
  by (induction mounts) auto


text \<open>
  C4. When the wrapped discoverer's \<^verbatim>\<open>Mounts()\<close> succeeds, \<^verbatim>\<open>Hooks()\<close> of the ldcache
  update discoverer returns exactly one hook, a \<^verbatim>\<open>createContainer\<close> hook. Its path is
  the first path the locator finds for the configured executable, and the default
  \<^verbatim>\<open>/usr/bin/nvidia-ctk\<close>, with a warning logged, when the locator fails or finds
  nothing. Its arguments are the base name of that path, then \<^verbatim>\<open>hook update-ldcache\<close>,
  then one \<^verbatim>\<open>--folder <dir>\<close> pair for each directory of a mount whose path is a
  library name, each directory once, in the order of first appearance. And
  \<^verbatim>\<open>uniqueFolders\<close> of \<^verbatim>\<open>/a/libx.so.1\<close>, \<^verbatim>\<open>/a/liby.so.1\<close>, \<^verbatim>\<open>/b/libz.so.1\<close> is
  \<^verbatim>\<open>/a\<close>, \<^verbatim>\<open>/b\<close>.
\<close>

theorem ldconfig_Hooks_spec:
  "(dMounts (mountsFrom d) = Inr mounts \<longrightarrow>
    (\<exists>h logs. ldconfig_Hooks d = (Inr [h], logs) \<and>
       hLifecycle h = ''createContainer'' \<and>
       ((\<exists>err. lookup d (nvidiaCTKExecutablePath d) = Inl err) \<or>
        lookup d (nvidiaCTKExecutablePath d) = Inr [] \<longrightarrow>
          hPath h = ''/usr/bin/nvidia-ctk'' \<and> (\<exists>msg. Warning msg \<in> set logs)) \<and>
       (\<forall>t ts. lookup d (nvidiaCTKExecutablePath d) = Inr (t # ts) \<longrightarrow>
          hPath h = t \<and> (\<forall>msg. Warning msg \<notin> set logs)) \<and>
       hArgs h = [Base (hPath h), ''hook'', ''update-ldcache''] @
         concat (map (\<lambda>f. [''--folder'', f])
           (first_occurrences (map Dir (filter isLibName (map mPath mounts))))) \<and>
       distinct (first_occurrences (map Dir (filter isLibName (map mPath mounts)))) \<and>
       set (first_occurrences (map Dir (filter isLibName (map mPath mounts)))) =
         Dir ` {p \<in> set (map mPath mounts). isLibName p})) \<and>
   uniqueFolders [''/a/libx.so.1'', ''/a/liby.so.1'', ''/b/libz.so.1''] = [''/a'', ''/b'']"
proof -
  have ex: "uniqueFolders [''/a/libx.so.1'', ''/a/liby.so.1'', ''/b/libz.so.1''] = [''/a'', ''/b'']"
    by code_simp
  have "\<exists>h logs. ldconfig_Hooks d = (Inr [h], logs) \<and>
       hLifecycle h = ''createContainer'' \<and>
       ((\<exists>err. lookup d (nvidiaCTKExecutablePath d) = Inl err) \<or>
        lookup d (nvidiaCTKExecutablePath d) = Inr [] \<longrightarrow>
          hPath h = ''/usr/bin/nvidia-ctk'' \<and> (\<exists>msg. Warning msg \<in> set logs)) \<and>
       (\<forall>t ts. lookup d (nvidiaCTKExecutablePath d) = Inr (t # ts) \<longrightarrow>
          hPath h = t \<and> (\<forall>msg. Warning msg \<notin> set logs)) \<and>
       hArgs h = [Base (hPath h), ''hook'', ''update-ldcache''] @
         concat (map (\<lambda>f. [''--folder'', f])
           (first_occurrences (map Dir (filter isLibName (map mPath mounts)))))"
    if m: "dMounts (mountsFrom d) = Inr mounts"
  proof (cases "lookup d (nvidiaCTKExecutablePath d)")
    case (Inl err)
    then show ?thesis
      using m
      by (simp add: ldconfig_Hooks_def CreateLDCacheUpdateHook_def uniqueFolders_eq
          getLibraryPaths_eq nvidiaCTKDefaultFilePath_def CreateContainerHook_def)
  next
    case (Inr targets)
    then show ?thesis
      using m
      by (cases targets)
        (simp_all add: ldconfig_Hooks_def CreateLDCacheUpdateHook_def uniqueFolders_eq
          getLibraryPaths_eq nvidiaCTKDefaultFilePath_def CreateContainerHook_def)
  qed
  then show ?thesis
    using ex by (auto simp add: distinct_first_occurrences set_first_occurrences)
qed


text \<open>A sample discoverer: three library mounts in two directories and one mount that
  is not a library, with a locator given as a parameter.\<close>

definition sample_mounts :: "Mount list" where
  "sample_mounts =
     [\<lparr>mHostPath = ''/h/a/libx.so.1'', mPath = ''/a/libx.so.1'', mOptions = []\<rparr>,
      \<lparr>mHostPath = ''/h/bin/smi'', mPath = ''/bin/smi'', mOptions = []\<rparr>,
      \<lparr>mHostPath = ''/h/a/liby.so.1'', mPath = ''/a/liby.so.1'', mOptions = []\<rparr>,
      \<lparr>mHostPath = ''/h/b/libz.so.1'', mPath = ''/b/libz.so.1'', mOptions = []\<rparr>]"

definition sample_ldconfig :: "Locator \<Rightarrow> ldconfig" where
  "sample_ldconfig l =
     \<lparr>mountsFrom = \<lparr>dDevices = Inr [], dMounts = Inr sample_mounts, dHooks = Inr []\<rparr>,
      lookup = l, nvidiaCTKExecutablePath = ''nvidia-ctk''\<rparr>"

lemma sample_folders:
  "first_occurrences (map Dir (filter isLibName (map mPath sample_mounts))) = [''/a'', ''/b'']"
  by code_simp

lemma sample_bases:
  "Base ''/usr/bin/nvidia-ctk'' = ''nvidia-ctk''" "Base ''/opt/ctk'' = ''ctk''"
  by code_simp+

theorem ldconfig_Hooks_spec_witness:
  "fst (ldconfig_Hooks (sample_ldconfig (\<lambda>p. Inl (Err ''not found'')))) =
     Inr [\<lparr>hLifecycle = ''createContainer'', hPath = ''/usr/bin/nvidia-ctk'',
           hArgs = [''nvidia-ctk'', ''hook'', ''update-ldcache'', ''--folder'', ''/a'',
                    ''--folder'', ''/b'']\<rparr>] \<and>
   fst (ldconfig_Hooks (sample_ldconfig (\<lambda>p. Inr [''/opt/ctk'', ''/usr/bin/nvidia-ctk'']))) =
     Inr [\<lparr>hLifecycle = ''createContainer'', hPath = ''/opt/ctk'',
           hArgs = [''ctk'', ''hook'', ''update-ldcache'', ''--folder'', ''/a'',
                    ''--folder'', ''/b'']\<rparr>]"
proof -
  let ?d1 = "sample_ldconfig (\<lambda>p. Inl (Err ''not found''))"
  let ?d2 = "sample_ldconfig (\<lambda>p. Inr [''/opt/ctk'', ''/usr/bin/nvidia-ctk''])"
  obtain h1 logs1 where r1: "ldconfig_Hooks ?d1 = (Inr [h1], logs1)"
    and "hLifecycle h1 = ''createContainer''" and "hPath h1 = ''/usr/bin/nvidia-ctk''"
    and "hArgs h1 = [Base (hPath h1), ''hook'', ''update-ldcache''] @
         concat (map (\<lambda>f. [''--folder'', f])
           (first_occurrences (map Dir (filter isLibName (map mPath sample_mounts)))))"
    using ldconfig_Hooks_spec [of ?d1 sample_mounts]
    by (auto simp add: sample_ldconfig_def)
  then have h1: "h1 = \<lparr>hLifecycle = ''createContainer'', hPath = ''/usr/bin/nvidia-ctk'',
           hArgs = [''nvidia-ctk'', ''hook'', ''update-ldcache'', ''--folder'', ''/a'',
                    ''--folder'', ''/b'']\<rparr>"
    by (cases h1) (simp add: sample_folders sample_bases)
  obtain h2 logs2 where r2: "ldconfig_Hooks ?d2 = (Inr [h2], logs2)"
    and "hLifecycle h2 = ''createContainer''" and "hPath h2 = ''/opt/ctk''"
    and "hArgs h2 = [Base (hPath h2), ''hook'', ''update-ldcache''] @
         concat (map (\<lambda>f. [''--folder'', f])
           (first_occurrences (map Dir (filter isLibName (map mPath sample_mounts)))))"
    using ldconfig_Hooks_spec [of ?d2 sample_mounts]
    by (auto simp add: sample_ldconfig_def)
  then have h2: "h2 = \<lparr>hLifecycle = ''createContainer'', hPath = ''/opt/ctk'',
           hArgs = [''ctk'', ''hook'', ''update-ldcache'', ''--folder'', ''/a'',
                    ''--folder'', ''/b'']\<rparr>"
    by (cases h2) (simp add: sample_folders sample_bases)
  show ?thesis using r1 h1 r2 h2 by simp
qed

subsection \<open>The library name rule\<close>

lemma Index_None_iff: "(Index s sep = None) = (\<nexists>a b. s = a @ sep @ b)"
proof (induction s)
  case Nil
  then show ?case by auto
next
  case (Cons c cs)
  show ?case
  proof (cases "prefix sep (c # cs)")
    case True
    then obtain b where "c # cs = sep @ b" by (auto simp: prefix_def)
    then have "c # cs = [] @ sep @ b" by simp
    with True show ?thesis by (metis Index.simps(2) option.distinct(1))
  next
    case False
    have "(\<exists>a b. c # cs = a @ sep @ b) = (\<exists>a b. cs = a @ sep @ b)"
    proof
      assume "\<exists>a b. c # cs = a @ sep @ b"
      then obtain a b where ab: "c # cs = a @ sep @ b" by blast
      with False have "a \<noteq> []" by (auto simp: prefix_def)
      then obtain a' where "a = c # a'" using ab by (cases a) auto
      with ab show "\<exists>a b. cs = a @ sep @ b" by auto
    next
      assume "\<exists>a b. cs = a @ sep @ b"
      then obtain a b where "cs = a @ sep @ b" by blast
      then have "c # cs = (c # a) @ sep @ b" by simp
      then show "\<exists>a b. c # cs = a @ sep @ b" by blast
    qed
    with False Cons.IH show ?thesis by simp
  qed
qed

lemma Split_Nil: "sep \<noteq> [] \<Longrightarrow> Split [] sep = [[]]"
  by (simp add: Split.simps)

lemma Split_no_instance: "Index s sep = None \<Longrightarrow> Split s sep = [s]"
  by (simp add: Split.simps)

lemma Split_prefix:
  "sep \<noteq> [] \<Longrightarrow> prefix sep s \<Longrightarrow> Split s sep = [] # Split (drop (length sep) s) sep"
  by (cases s) (simp_all add: Split.simps [of _ sep])

lemma Split_not_prefix:
  "sep \<noteq> [] \<Longrightarrow> \<not> prefix sep (c # cs) \<Longrightarrow>
   Split (c # cs) sep = (case Split cs sep of p # ps \<Rightarrow> (c # p) # ps | [] \<Rightarrow> [])"
  by (simp add: Split.simps [of "c # cs" sep] Split.simps [of cs sep] split: option.splits)

lemma Split_last_so:
  assumes "\<nexists>a b. frag = a @ ''.so'' @ b"
  shows "\<exists>ps. ps \<noteq> [] \<and> Split (pre @ ''.so'' @ frag) ''.so'' = ps @ [frag]"
proof (induction "length pre" arbitrary: pre rule: less_induct)
  case less
  show ?case
  proof (cases "prefix ''.so'' (pre @ ''.so'' @ frag)")
    case True
    show ?thesis
    proof (cases "pre = []")
      case True
      have "Split frag ''.so'' = [frag]"
        using assms by (simp add: Split_no_instance Index_None_iff)
      with True show ?thesis
        using Split_prefix [of "''.so''" "''.so'' @ frag"] by simp
    next
      case False
      with True obtain pre' where pre: "pre = ''.so'' @ pre'"
        by (cases pre; cases "tl pre"; cases "tl (tl pre)") auto
      then have "length pre' < length pre" by simp
      from less [OF this] obtain ps where "ps \<noteq> []"
        and "Split (pre' @ ''.so'' @ frag) ''.so'' = ps @ [frag]" by blast
      then have "Split (pre @ ''.so'' @ frag) ''.so'' = ([] # ps) @ [frag]"
        using Split_prefix [of "''.so''" "pre @ ''.so'' @ frag"] pre by simp
      then show ?thesis by blast
    qed
  next
    case False
    then obtain c pre' where pre: "pre = c # pre'"
      by (cases pre) auto
    then have "length pre' < length pre" by simp
    from less [OF this] obtain ps where "ps \<noteq> []"
      and sp: "Split (pre' @ ''.so'' @ frag) ''.so'' = ps @ [frag]" by blast
    then obtain p ps' where ps: "ps = p # ps'" by (cases ps) auto
    have "Split (pre @ ''.so'' @ frag) ''.so'' = ((c # p) # ps') @ [frag]"
      using False Split_not_prefix [of "''.so''" c "pre' @ ''.so'' @ frag"] sp ps pre
      by simp
    then show ?thesis by blast
  qed
qed


lemma Match_star_iff:
  "Match (CHR ''*'' # ps) name =
     (\<exists>a b. name = a @ b \<and> Separator \<notin> set a \<and> Match ps b)"
proof (induction name)
  case Nil
  then show ?case by simp
next
  case (Cons c cs)
  have "(\<exists>a b. c # cs = a @ b \<and> Separator \<notin> set a \<and> Match ps b) =
        (Match ps (c # cs) \<or>
         (c \<noteq> Separator \<and> (\<exists>a b. cs = a @ b \<and> Separator \<notin> set a \<and> Match ps b)))"
    (is "?L = ?R")
  proof
    assume ?L
    then obtain a b where ab: "c # cs = a @ b" "Separator \<notin> set a" "Match ps b" by blast
    show ?R
    proof (cases a)
      case Nil
      with ab show ?thesis by simp
    next
      case (Cons x a')
      with ab have "c \<noteq> Separator" "cs = a' @ b" "Separator \<notin> set a'" by auto
      with ab(3) show ?thesis by blast
    qed
  next
    assume ?R
    then show ?L
    proof
      assume "Match ps (c # cs)"
      then have "c # cs = [] @ (c # cs) \<and> Separator \<notin> set [] \<and> Match ps (c # cs)" by simp
      then show ?L by blast
    next
      assume "c \<noteq> Separator \<and> (\<exists>a b. cs = a @ b \<and> Separator \<notin> set a \<and> Match ps b)"
      then obtain a b where "c \<noteq> Separator" "cs = a @ b" "Separator \<notin> set a" "Match ps b"
        by blast
      then have "c # cs = (c # a) @ b \<and> Separator \<notin> set (c # a) \<and> Match ps b" by simp
      then show ?L by blast
    qed
  qed
  with Cons.IH show ?case by simp
qed

lemma Match_literal:
  "p \<noteq> CHR ''*'' \<Longrightarrow> p \<noteq> CHR ''?'' \<Longrightarrow>
   Match (p # ps) name = (\<exists>cs. name = p # cs \<and> Match ps cs)"
  by (cases name) auto

lemma Match_question:
  "Match (CHR ''?'' # ps) name = (\<exists>c cs. name = c # cs \<and> c \<noteq> Separator \<and> Match ps cs)"
  by (cases name) auto

lemma Match_lib_pattern:
  "Match ''lib?*.so*'' base =
     (\<exists>c r t. base = ''lib'' @ c # r @ ''.so'' @ t \<and> Separator \<notin> set (c # r @ t))"
proof -
  have star: "Match ''*'' t = (Separator \<notin> set t)" for t
    by (simp add: Match_star_iff)
  have so: "Match ''.so*'' b = (\<exists>t. b = ''.so'' @ t \<and> Separator \<notin> set t)" for b
    by (auto simp add: Match_literal star)
  have rest: "Match ''?*.so*'' x =
      (\<exists>c r t. x = c # r @ ''.so'' @ t \<and> Separator \<notin> set (c # r @ t))" for x
    unfolding Match_question Match_star_iff so by (simp, blast)
  have "Match ''lib?*.so*'' base = (\<exists>x. base = ''lib'' @ x \<and> Match ''?*.so*'' x)"
    by (auto simp add: Match_literal)
  then show ?thesis
    unfolding rest by blast
qed


lemma last_instance:
  assumes "sep \<noteq> []"
  shows "\<exists>a b. s = a @ sep @ b \<Longrightarrow>
         \<exists>pre frag. s = pre @ sep @ frag \<and> (\<nexists>a b. frag = a @ sep @ b)"
proof (induction "length s" arbitrary: s rule: less_induct)
  case less
  then obtain a b where s: "s = a @ sep @ b" by blast
  show ?case
  proof (cases "\<exists>a' b'. b = a' @ sep @ b'")
    case False
    with s show ?thesis by blast
  next
    case True
    have "length b < length s" using s assms by (cases sep) auto
    from less(1) [OF this True] obtain pre frag
      where "b = pre @ sep @ frag" and frag: "\<nexists>a b. frag = a @ sep @ b" by blast
    with s have "s = (a @ sep @ pre) @ sep @ frag" by simp
    with frag show ?thesis by blast
  qed
qed

lemma isLibName_no_match: "\<not> Match ''lib?*.so*'' (Base filename) \<Longrightarrow> \<not> isLibName filename"
  by (simp add: isLibName_def Let_def)

lemma isLibName_last_fragment:
  assumes "Match ''lib?*.so*'' (Base filename)"
    and "Base filename = pre @ ''.so'' @ frag"
    and "\<nexists>a b. frag = a @ ''.so'' @ b"
  shows "isLibName filename = (frag = [] \<or> prefix ''.'' frag)"
proof -
  obtain ps where "ps \<noteq> []" and "Split (Base filename) ''.so'' = ps @ [frag]"
    using Split_last_so [OF assms(3), of pre] assms(2) by auto
  then show ?thesis
    using assms(1) by (simp add: isLibName_def Let_def HasPrefix_def)
qed

lemma Match_lib_has_fragment:
  assumes "Match ''lib?*.so*'' base"
  shows "\<exists>pre frag. base = pre @ ''.so'' @ frag \<and> (\<nexists>a b. frag = a @ ''.so'' @ b)"
proof -
  from assms obtain c r t where "base = (''lib'' @ c # r) @ ''.so'' @ t"
    unfolding Match_lib_pattern by auto
  then have "\<exists>a b. base = a @ ''.so'' @ b" by blast
  then show ?thesis by (rule last_instance [rotated]) simp
qed

text \<open>
  C8. \<^verbatim>\<open>isLibName\<close> accepts \<^verbatim>\<open>libfoo.so\<close>, \<^verbatim>\<open>libfoo.so.1\<close> and \<^verbatim>\<open>libfoo.so.1.2.3\<close> and
  rejects \<^verbatim>\<open>libfoo.soup\<close>, \<^verbatim>\<open>foo.so\<close> and \<^verbatim>\<open>libfoo.sox\<close>. A file name whose base name
  does not match the glob \<^verbatim>\<open>lib?*.so*\<close> is rejected. A base name that matches has a last
  occurrence of \<^verbatim>\<open>.so\<close>, and the name is accepted exactly when the fragment after that
  occurrence is empty or starts with a dot.
\<close>

theorem isLibName_spec:
  "isLibName ''libfoo.so'' \<and> isLibName ''libfoo.so.1'' \<and> isLibName ''libfoo.so.1.2.3'' \<and>
   \<not> isLibName ''libfoo.soup'' \<and> \<not> isLibName ''foo.so'' \<and> \<not> isLibName ''libfoo.sox'' \<and>
   (\<not> Match ''lib?*.so*'' (Base filename) \<longrightarrow> \<not> isLibName filename) \<and>
   (Match ''lib?*.so*'' (Base filename) \<longrightarrow>
      (\<exists>pre frag. Base filename = pre @ ''.so'' @ frag \<and> (\<nexists>a b. frag = a @ ''.so'' @ b))) \<and>
   (Match ''lib?*.so*'' (Base filename) \<and> Base filename = pre @ ''.so'' @ frag \<and>
    (\<nexists>a b. frag = a @ ''.so'' @ b) \<longrightarrow>
      isLibName filename = (frag = [] \<or> prefix ''.'' frag))"
proof -
  have "isLibName ''libfoo.so''" by code_simp
  moreover have "isLibName ''libfoo.so.1''" by code_simp
  moreover have "isLibName ''libfoo.so.1.2.3''" by code_simp
  moreover have "\<not> isLibName ''libfoo.soup''" by code_simp
  moreover have "\<not> isLibName ''foo.so''" by code_simp
  moreover have "\<not> isLibName ''libfoo.sox''" by code_simp
  ultimately show ?thesis
    using isLibName_no_match [of filename] Match_lib_has_fragment [of "Base filename"]
      isLibName_last_fragment [of filename pre frag]
    by blast
qed

lemma sample_fragments:
  "\<nexists>a b. ''.1.2'' = a @ ''.so'' @ b" "\<nexists>a b. ''up'' = a @ ''.so'' @ b"
proof -
  have "Index ''.1.2'' ''.so'' = None" by code_simp
  then show "\<nexists>a b. ''.1.2'' = a @ ''.so'' @ b"
    using Index_None_iff [of "''.1.2''" "''.so''"] by blast
  have "Index ''up'' ''.so'' = None" by code_simp
  then show "\<nexists>a b. ''up'' = a @ ''.so'' @ b"
    using Index_None_iff [of "''up''" "''.so''"] by blast
qed

lemma sample_lib_bases:
  "Base ''/usr/lib/libfoo.so.1.2'' = ''libfoo'' @ ''.so'' @ ''.1.2''"
  "Base ''/usr/lib/libfoo.soup'' = ''libfoo'' @ ''.so'' @ ''up''"
  "Match ''lib?*.so*'' (Base ''/usr/lib/libfoo.so.1.2'')"
  "Match ''lib?*.so*'' (Base ''/usr/lib/libfoo.soup'')"
  "\<not> Match ''lib?*.so*'' (Base ''/usr/lib/foo.so'')"
  by code_simp+

theorem isLibName_spec_witness:
  "isLibName ''/usr/lib/libfoo.so.1.2'' \<and> \<not> isLibName ''/usr/lib/libfoo.soup'' \<and>
   \<not> isLibName ''/usr/lib/foo.so''"
proof -
  have "isLibName ''/usr/lib/libfoo.so.1.2'' = (''.1.2'' = [] \<or> prefix ''.'' ''.1.2'')"
    using isLibName_spec [of "''/usr/lib/libfoo.so.1.2''" "''libfoo''" "''.1.2''"]
      sample_fragments(1) sample_lib_bases(1,3)
    by blast
  then have a: "isLibName ''/usr/lib/libfoo.so.1.2''"
    by simp
  have "isLibName ''/usr/lib/libfoo.soup'' = (''up'' = [] \<or> prefix ''.'' ''up'')"
    using isLibName_spec [of "''/usr/lib/libfoo.soup''" "''libfoo''" "''up''"]
      sample_fragments(2) sample_lib_bases(2,4)
    by blast
  then have b: "\<not> isLibName ''/usr/lib/libfoo.soup''"
    by simp
  have c: "\<not> isLibName ''/usr/lib/foo.so''"
    using isLibName_spec [of "''/usr/lib/foo.so''" "''libfoo''" "''up''"] sample_lib_bases(5)
    by blast
  show ?thesis using a b c by simp
qed

section \<open>internal/lookup/root/root.go\<close>

text \<open>A Go function either returns or panics (an index out of range, a method call on a
  nil value).\<close>

datatype 'a outcome = Returns 'a | Panics string

text \<open>What the library locator sees of the file system: the paths that match a pattern
  under a root and a list of search paths, in the order they are found.\<close>

type_synonym FileSystem = "string \<Rightarrow> string list \<Rightarrow> string \<Rightarrow> string list"

definition ErrNotFound :: error where
  "ErrNotFound = Err ''not found''"

text \<open>Modelled from the spec: \<^verbatim>\<open>lookup.NewLibraryLocator\<close> of package \<^verbatim>\<open>lookup\<close> is not
  among the source files. The spec: \<^verbatim>\<open>Locate(pattern) -> (paths[], error)\<close> returns the
  matches in discovery order and "fails with \<^verbatim>\<open>NotFound\<close> unless \<^verbatim>\<open>optional\<close> is set, in
  which case an empty result is returned without error".\<close>

definition NewLibraryLocator :: "FileSystem \<Rightarrow> string \<Rightarrow> string list \<Rightarrow> bool \<Rightarrow> Locator" where
  "NewLibraryLocator fs root searchPaths optional =
     (\<lambda>pattern.
        let found = fs root searchPaths pattern
        in if found = [] \<and> \<not> optional then Inl (Wrap (''pattern '' @ pattern) ErrNotFound)
           else Inr found)"

record Driver =
  Root :: string
  librarySearchPaths :: "string list"
  configSearchPaths :: "string list"
  version :: string
  libraryRoot :: string

text \<open>\<^verbatim>\<open>filepath.SplitList\<close> on Unix: the parts of a path list between colons, none for
  the empty string.\<close>

definition SplitList :: "string \<Rightarrow> string list" where
  "SplitList path = (if path = [] then [] else Split path '':'')"

definition normalizeSearchPaths :: "string list \<Rightarrow> string list" where
  "normalizeSearchPaths paths = concat (map SplitList paths)"

definition Libraries :: "FileSystem \<Rightarrow> Driver \<Rightarrow> Locator" where
  "Libraries fs r =
     NewLibraryLocator fs (Root r) (normalizeSearchPaths (librarySearchPaths r)) False"

text \<open>\<^verbatim>\<open>libcudaPath\<close>: Go's pair of the path and the error, or the panic of \<^verbatim>\<open>paths[0]\<close>
  on an empty slice, and the lines logged. The warning has one verb for two arguments,
  so \<^verbatim>\<open>fmt\<close> prints the second as an extra.\<close>

definition libcudaPath ::
  "FileSystem \<Rightarrow> Driver \<Rightarrow> (string \<times> error option) outcome \<times> log_entry list" where
  "libcudaPath fs r =
     (let pattern = ''libcuda.so.*.*'';
          locator = Libraries fs r
      in case locator pattern of
           Inl err \<Rightarrow>
             (Returns ([], Some (Err (''failed to locate '' @ pattern @ '': '' @
                                      error_string err))), [])
         | Inr paths \<Rightarrow>
             (case paths of
                [] \<Rightarrow> (Panics ''index out of range [0] with length 0'', [])
              | libcudaPath # rest \<Rightarrow>
                  (Returns (libcudaPath, None),
                   if length paths > 1
                   then [Warning (''Selecting '' @ libcudaPath @
                           '' out of multiple libcuda.so paths.%!(EXTRA []string='' @
                           fmt_list paths @ '')'')]
                   else [])))"

text \<open>\<^verbatim>\<open>Version\<close>: the result, the driver with its cached version, and the lines logged.
  (\<^verbatim>\<open>%q\<close> is modelled for a path that needs no escape.)\<close>

definition Version ::
  "FileSystem \<Rightarrow> Driver \<Rightarrow> (string \<times> error option) outcome \<times> Driver \<times> log_entry list" where
  "Version fs r =
     (if version r \<noteq> [] then (Returns (version r, None), r, [])
      else case libcudaPath fs r of
        (Panics msg, logs) \<Rightarrow> (Panics msg, r, logs)
      | (Returns (path, Some err), logs) \<Rightarrow>
          (Returns ([], Some (Err (''failed to locate libcuda.so: '' @ error_string err))),
           r, logs)
      | (Returns (path, None), logs) \<Rightarrow>
          (let version' = TrimPrefix (Base path) ''libcuda.so.''
           in if version' = []
              then (Returns ([], Some (Err (''failed to determine libcuda.so version from path: ''
                                             @ [CHR 0x22] @ path @ [CHR 0x22]))), r, logs)
              else (Returns (version', None), r\<lparr>version := version'\<rparr>, logs)))"

section \<open>tools/container/toolkit/installer/artifact-root.go\<close>

text \<open>\<^verbatim>\<open>os.Stat\<close> returns a file info and a nil error, or a nil file info and an error.\<close>

record FileInfo =
  IsDir :: bool

type_synonym Stat = "string \<Rightarrow> error + FileInfo"

text \<open>The condition \<^verbatim>\<open>err != nil && !info.IsDir()\<close> after \<^verbatim>\<open>os.Stat\<close>: with an error the
  left side holds and the right side calls \<^verbatim>\<open>IsDir\<close> on the nil file info, which
  panics; with no error the left side is false.\<close>

definition stat_failed_and_not_dir :: "error + FileInfo \<Rightarrow> bool outcome" where
  "stat_failed_and_not_dir res =
     (case res of
        Inl err \<Rightarrow> Panics ''invalid memory address or nil pointer dereference''
      | Inr info \<Rightarrow> Returns False)"

definition resolvePackageType ::
  "Stat \<Rightarrow> string \<Rightarrow> string \<Rightarrow> (string \<times> error option) outcome" where
  "resolvePackageType stat hostRoot packageType =
     (if packageType \<noteq> [] \<and> packageType \<noteq> ''auto'' then Returns (packageType, None)
      else case stat_failed_and_not_dir (stat (Join [hostRoot, ''/usr/bin/rpm''])) of
        Panics msg \<Rightarrow> Panics msg
      | Returns True \<Rightarrow> Returns (''rpm'', None)
      | Returns False \<Rightarrow>
          (case stat_failed_and_not_dir (stat (Join [hostRoot, ''/usr/bin/dpkg''])) of
             Panics msg \<Rightarrow> Panics msg
           | Returns True \<Rightarrow> Returns (''deb'', None)
           | Returns False \<Rightarrow> Returns (''deb'', None)))"

section \<open>Properties of root.go\<close>

lemma Libraries_found:
  "Libraries fs r ''libcuda.so.*.*'' =
     (let found = fs (Root r) (normalizeSearchPaths (librarySearchPaths r)) ''libcuda.so.*.*''
      in if found = [] then Inl (Wrap ''pattern libcuda.so.*.*'' ErrNotFound) else Inr found)"
  by (simp add: Libraries_def NewLibraryLocator_def Let_def)

lemma Version_none_found:
  assumes "version r = []"
    and "fs (Root r) (normalizeSearchPaths (librarySearchPaths r)) ''libcuda.so.*.*'' = []"
  shows "\<exists>err. Version fs r = (Returns ([], Some err), r, [])"
  using assms by (simp add: Version_def libcudaPath_def Libraries_found)

lemma Version_found:
  assumes "version r = []"
    and "fs (Root r) (normalizeSearchPaths (librarySearchPaths r)) ''libcuda.so.*.*'' = p # ps"
  shows "\<exists>msg err. Version fs r =
     (if TrimPrefix (Base p) ''libcuda.so.'' = [] then Returns ([], Some err)
      else Returns (TrimPrefix (Base p) ''libcuda.so.'', None),
      if TrimPrefix (Base p) ''libcuda.so.'' = [] then r
      else r\<lparr>version := TrimPrefix (Base p) ''libcuda.so.''\<rparr>,
      if ps \<noteq> [] then [Warning msg] else [])"
  using assms by (simp add: Version_def libcudaPath_def Libraries_found Let_def)

lemma TrimPrefix_append: "TrimPrefix (p @ v) p = v"
  by (simp add: TrimPrefix_def HasPrefix_def)

text \<open>
  C5. With no version cached, \<^verbatim>\<open>Version\<close> asks the library locator for
  \<^verbatim>\<open>libcuda.so.*.*\<close>. When nothing is found it returns an error and caches nothing. When
  paths are found it takes the first, and logs a warning exactly when there are more;
  the version is the base name of that path without the prefix \<^verbatim>\<open>libcuda.so.\<close>, so the
  suffix after the prefix for a base name that has it. An empty version is an error; any
  other is returned and cached.
\<close>

theorem Version_spec:
  "version r = [] \<and>
   found = fs (Root r) (normalizeSearchPaths (librarySearchPaths r)) ''libcuda.so.*.*'' \<longrightarrow>
   (found = [] \<longrightarrow>
      (\<exists>err. fst (Version fs r) = Returns ([], Some err)) \<and> fst (snd (Version fs r)) = r) \<and>
   (\<forall>p ps. found = p # ps \<longrightarrow>
      ((\<exists>msg. Warning msg \<in> set (snd (snd (Version fs r)))) = (ps \<noteq> [])) \<and>
      (TrimPrefix (Base p) ''libcuda.so.'' = [] \<longrightarrow>
         (\<exists>err. fst (Version fs r) = Returns ([], Some err)) \<and>
         fst (snd (Version fs r)) = r) \<and>
      (TrimPrefix (Base p) ''libcuda.so.'' \<noteq> [] \<longrightarrow>
         fst (Version fs r) = Returns (TrimPrefix (Base p) ''libcuda.so.'', None) \<and>
         fst (snd (Version fs r)) = r\<lparr>version := TrimPrefix (Base p) ''libcuda.so.''\<rparr>) \<and>
      (\<forall>v. Base p = ''libcuda.so.'' @ v \<longrightarrow> TrimPrefix (Base p) ''libcuda.so.'' = v))"
proof (intro impI, elim conjE)
  assume v: "version r = []"
    and f: "found = fs (Root r) (normalizeSearchPaths (librarySearchPaths r)) ''libcuda.so.*.*''"
  have none: "found = [] \<longrightarrow>
      (\<exists>err. fst (Version fs r) = Returns ([], Some err)) \<and> fst (snd (Version fs r)) = r"
    using Version_none_found [OF v, of fs] f by auto
  have some: "((\<exists>msg. Warning msg \<in> set (snd (snd (Version fs r)))) = (ps \<noteq> [])) \<and>
      (TrimPrefix (Base p) ''libcuda.so.'' = [] \<longrightarrow>
         (\<exists>err. fst (Version fs r) = Returns ([], Some err)) \<and>
         fst (snd (Version fs r)) = r) \<and>
      (TrimPrefix (Base p) ''libcuda.so.'' \<noteq> [] \<longrightarrow>
         fst (Version fs r) = Returns (TrimPrefix (Base p) ''libcuda.so.'', None) \<and>
         fst (snd (Version fs r)) = r\<lparr>version := TrimPrefix (Base p) ''libcuda.so.''\<rparr>) \<and>
      (\<forall>v. Base p = ''libcuda.so.'' @ v \<longrightarrow> TrimPrefix (Base p) ''libcuda.so.'' = v)"
    if "found = p # ps" for p ps
  proof -
    have fp: "fs (Root r) (normalizeSearchPaths (librarySearchPaths r)) ''libcuda.so.*.*'' = p # ps"
      using f that by simp
    obtain msg err where "Version fs r =
     (if TrimPrefix (Base p) ''libcuda.so.'' = [] then Returns ([], Some err)
      else Returns (TrimPrefix (Base p) ''libcuda.so.'', None),
      if TrimPrefix (Base p) ''libcuda.so.'' = [] then r
      else r\<lparr>version := TrimPrefix (Base p) ''libcuda.so.''\<rparr>,
      if ps \<noteq> [] then [Warning msg] else [])"
      using Version_found [of r fs p ps] v fp by blast
    then show ?thesis
      using TrimPrefix_append [of "''libcuda.so.''"] by auto
  qed
  show "(found = [] \<longrightarrow>
      (\<exists>err. fst (Version fs r) = Returns ([], Some err)) \<and> fst (snd (Version fs r)) = r) \<and>
   (\<forall>p ps. found = p # ps \<longrightarrow>
      ((\<exists>msg. Warning msg \<in> set (snd (snd (Version fs r)))) = (ps \<noteq> [])) \<and>
      (TrimPrefix (Base p) ''libcuda.so.'' = [] \<longrightarrow>
         (\<exists>err. fst (Version fs r) = Returns ([], Some err)) \<and>
         fst (snd (Version fs r)) = r) \<and>
      (TrimPrefix (Base p) ''libcuda.so.'' \<noteq> [] \<longrightarrow>
         fst (Version fs r) = Returns (TrimPrefix (Base p) ''libcuda.so.'', None) \<and>
         fst (snd (Version fs r)) = r\<lparr>version := TrimPrefix (Base p) ''libcuda.so.''\<rparr>) \<and>
      (\<forall>v. Base p = ''libcuda.so.'' @ v \<longrightarrow> TrimPrefix (Base p) ''libcuda.so.'' = v))"
    using none some by blast
qed


text \<open>A sample driver root with no cached version, and file systems in which the
  locator finds a given list of paths.\<close>

definition sample_driver :: Driver where
  "sample_driver =
     \<lparr>Root = ''/run/nvidia/driver'', librarySearchPaths = [], configSearchPaths = [],
      version = [], libraryRoot = []\<rparr>"

definition fs_finding :: "string list \<Rightarrow> FileSystem" where
  "fs_finding paths = (\<lambda>root searchPaths pattern. paths)"

lemma sample_versions:
  "TrimPrefix (Base ''/usr/lib64/libcuda.so.535.54'') ''libcuda.so.'' = ''535.54''"
  "TrimPrefix (Base ''/usr/lib64/libcuda.so.'') ''libcuda.so.'' = []"
  by code_simp+

theorem Version_spec_witness:
  "(\<exists>err. fst (Version (fs_finding []) sample_driver) = Returns ([], Some err)) \<and>
   fst (Version (fs_finding [''/usr/lib64/libcuda.so.535.54'', ''/usr/lib/libcuda.so.535.54''])
          sample_driver) = Returns (''535.54'', None) \<and>
   (\<exists>msg. Warning msg \<in> set (snd (snd
      (Version (fs_finding [''/usr/lib64/libcuda.so.535.54'', ''/usr/lib/libcuda.so.535.54''])
          sample_driver)))) \<and>
   (\<exists>err. fst (Version (fs_finding [''/usr/lib64/libcuda.so.'']) sample_driver) =
      Returns ([], Some err))"
proof -
  have v: "version sample_driver = []"
    by (simp add: sample_driver_def)
  have a: "\<exists>err. fst (Version (fs_finding []) sample_driver) = Returns ([], Some err)"
    using Version_spec [of sample_driver "[]" "fs_finding []"] v
    by (simp add: fs_finding_def)
  let ?two = "[''/usr/lib64/libcuda.so.535.54'', ''/usr/lib/libcuda.so.535.54'']"
  have b: "fst (Version (fs_finding ?two) sample_driver) = Returns (''535.54'', None) \<and>
      (\<exists>msg. Warning msg \<in> set (snd (snd (Version (fs_finding ?two) sample_driver))))"
    using Version_spec [of sample_driver ?two "fs_finding ?two"] v sample_versions(1)
    by (simp add: fs_finding_def)
  have c: "\<exists>err. fst (Version (fs_finding [''/usr/lib64/libcuda.so.'']) sample_driver) =
      Returns ([], Some err)"
    using Version_spec [of sample_driver "[''/usr/lib64/libcuda.so.'']"
        "fs_finding [''/usr/lib64/libcuda.so.'']"] v sample_versions(2)
    by (simp add: fs_finding_def)
  show ?thesis using a b c by blast
qed

section \<open>Properties of artifact-root.go\<close>

text \<open>A host on which the listed paths are regular files and nothing else exists.\<close>

definition stat_with :: "string list \<Rightarrow> Stat" where
  "stat_with files =
     (\<lambda>p. if p \<in> set files then Inr \<lparr>IsDir = False\<rparr>
          else Inl (Err ''no such file or directory''))"

lemma stat_failed_and_not_dir_never_true: "stat_failed_and_not_dir res \<noteq> Returns True"
  by (simp add: stat_failed_and_not_dir_def split: sum.splits)

lemma resolvePackageType_auto:
  "packageType = [] \<or> packageType = ''auto'' \<Longrightarrow>
   resolvePackageType stat hostRoot packageType =
     (case (stat (Join [hostRoot, ''/usr/bin/rpm'']), stat (Join [hostRoot, ''/usr/bin/dpkg'']))
      of (Inr rpm, Inr dpkg) \<Rightarrow> Returns (''deb'', None)
       | _ \<Rightarrow> Panics ''invalid memory address or nil pointer dereference'')"
  by (auto simp add: resolvePackageType_def stat_failed_and_not_dir_def split: sum.splits)

text \<open>
  C6. The code at the inputs where it departs from the specification, for the package
  type \<^verbatim>\<open>auto\<close> and the host root \<^verbatim>\<open>/host\<close>: with both \<^verbatim>\<open>/usr/bin/rpm\<close> and \<^verbatim>\<open>/usr/bin/dpkg\<close> present it
  returns \<^verbatim>\<open>deb\<close>, not \<^verbatim>\<open>rpm\<close>; with only \<^verbatim>\<open>rpm\<close>, with only \<^verbatim>\<open>dpkg\<close> and with neither it
  panics on the nil file info. An explicit package type is returned unchanged.
\<close>

theorem resolvePackageType_inverted:
  "resolvePackageType (stat_with [''/host/usr/bin/rpm'', ''/host/usr/bin/dpkg'']) ''/host''
     ''auto'' = Returns (''deb'', None) \<and>
   resolvePackageType (stat_with [''/host/usr/bin/rpm'']) ''/host'' ''auto'' =
     Panics ''invalid memory address or nil pointer dereference'' \<and>
   resolvePackageType (stat_with [''/host/usr/bin/dpkg'']) ''/host'' ''auto'' =
     Panics ''invalid memory address or nil pointer dereference'' \<and>
   resolvePackageType (stat_with []) ''/host'' ''auto'' =
     Panics ''invalid memory address or nil pointer dereference'' \<and>
   resolvePackageType (stat_with []) ''/host'' ''rpm'' = Returns (''rpm'', None)"
proof -
  have j: "Join [''/host'', ''/usr/bin/rpm''] = ''/host/usr/bin/rpm''"
    "Join [''/host'', ''/usr/bin/dpkg''] = ''/host/usr/bin/dpkg''"
    by code_simp+
  show ?thesis
    by (simp add: resolvePackageType_def stat_failed_and_not_dir_def stat_with_def j)
qed

section \<open>The create-dot-so-symlinks command (tools/container/toolkit/toolkit.go)\<close>

record config =
  containerSpec :: string
  driverVersion :: string

text \<open>What the command calls outside this file: \<^verbatim>\<open>oci.LoadContainerState\<close> and
  \<^verbatim>\<open>GetContainerRoot\<close> of package \<^verbatim>\<open>oci\<close>, the library locator built for the container
  root (with \<^verbatim>\<open>WithOptional(true)\<close>), and \<^verbatim>\<open>filepath.Glob\<close> and \<^verbatim>\<open>os.Symlink\<close> on a file
  system \<open>'fs\<close>. \<^verbatim>\<open>Glob\<close> returns the matches and an error or nil; \<^verbatim>\<open>Symlink\<close> is given
  the old and the new name and returns an error or nil and the file system after it.\<close>

record ('s, 'fs) env =
  LoadContainerState :: "string \<Rightarrow> error + 's"
  GetContainerRoot :: "'s \<Rightarrow> error + string"
  LibraryLocator :: "string \<Rightarrow> Locator"
  Glob :: "'fs \<Rightarrow> string \<Rightarrow> string list \<times> error option"
  Symlink :: "'fs \<Rightarrow> string \<Rightarrow> string \<Rightarrow> error option \<times> 'fs"

text \<open>The loop of \<^verbatim>\<open>run\<close> over the located libraries. It carries the file system and
  the list of the \<^verbatim>\<open>os.Symlink\<close> calls made so far, as pairs of the old and the new
  name.\<close>

fun create_symlinks ::
  "('s, 'fs) env \<Rightarrow> string \<Rightarrow> string list \<Rightarrow> 'fs \<times> (string \<times> string) list \<Rightarrow>
   'fs \<times> (string \<times> string) list" where
  "create_symlinks e ver [] (fs, calls) = (fs, calls)"
| "create_symlinks e ver (lib # libs) (fs, calls) =
     (if \<not> HasSuffix lib (''.so.'' @ ver) then create_symlinks e ver libs (fs, calls)
      else
        let libSoPath = TrimSuffix lib (''.'' @ ver);
            (libSoXPaths, err) = Glob e fs (libSoPath @ ''.[0-9]'')
        in if length libSoXPaths \<noteq> 1 \<or> err \<noteq> None
           then create_symlinks e ver libs (fs, calls)
           else
             let (err, fs') = Symlink e fs (Base (libSoXPaths ! 0)) libSoPath
             in if err \<noteq> None
                then create_symlinks e ver libs
                       (fs', calls @ [(Base (libSoXPaths ! 0), libSoPath)])
                else create_symlinks e ver libs
                       (fs', calls @ [(Base (libSoXPaths ! 0), libSoPath)]))"

text \<open>\<^verbatim>\<open>run\<close>: the error or nil, the file system after the command and the
  \<^verbatim>\<open>os.Symlink\<close> calls it made.\<close>

definition run ::
  "('s, 'fs) env \<Rightarrow> config \<Rightarrow> 'fs \<Rightarrow> error option \<times> 'fs \<times> (string \<times> string) list" where
  "run e cfg fs =
     (case LoadContainerState e (containerSpec cfg) of
        Inl err \<Rightarrow>
          (Some (Err (''failed to load container state: '' @ error_string err)), fs, [])
      | Inr s \<Rightarrow>
     (case GetContainerRoot e s of
        Inl err \<Rightarrow>
          (Some (Err (''failed to determined container root: '' @ error_string err)), fs, [])
      | Inr containerRoot \<Rightarrow>
     (case LibraryLocator e containerRoot (''*.so.'' @ driverVersion cfg) of
        Inl err \<Rightarrow>
          (Some (Err (''failed to locate libraries for driver version '' @
                      driverVersion cfg @ '': '' @ error_string err)), fs, [])
      | Inr libs \<Rightarrow>
          (let (fs', calls) = create_symlinks e (driverVersion cfg) libs (fs, [])
           in (None, fs', calls)))))"


section \<open>Properties of the create-dot-so-symlinks command\<close>

text \<open>One library with exactly one sibling, and one without.\<close>

lemma create_symlinks_one_sibling:
  assumes "HasSuffix lib (''.so.'' @ ver)"
    and "Glob e fs (TrimSuffix lib (''.'' @ ver) @ ''.[0-9]'') = ([x], None)"
  shows "create_symlinks e ver (lib # libs) (fs, calls) =
     create_symlinks e ver libs
       (snd (Symlink e fs (Base x) (TrimSuffix lib (''.'' @ ver))),
        calls @ [(Base x, TrimSuffix lib (''.'' @ ver))])"
  using assms by (simp add: Let_def split: prod.splits)

lemma create_symlinks_skip:
  assumes "\<not> HasSuffix lib (''.so.'' @ ver) \<or>
      length (fst (Glob e fs (TrimSuffix lib (''.'' @ ver) @ ''.[0-9]''))) \<noteq> 1 \<or>
      snd (Glob e fs (TrimSuffix lib (''.'' @ ver) @ ''.[0-9]'')) \<noteq> None"
  shows "create_symlinks e ver (lib # libs) (fs, calls) = create_symlinks e ver libs (fs, calls)"
  using assms by (auto simp add: Let_def split: prod.splits)

text \<open>A call of \<^verbatim>\<open>os.Symlink\<close> is justified by a located library when the library has
  the suffix \<^verbatim>\<open>.so.<version>\<close>, the new name is the library's path without the version,
  and in some file system the glob \<^verbatim>\<open><new name>.[0-9]\<close> had exactly one match, whose base
  name is the old name.\<close>

definition justified ::
  "('s, 'fs) env \<Rightarrow> string \<Rightarrow> string list \<Rightarrow> string \<times> string \<Rightarrow> bool" where
  "justified e ver libs call =
     (\<exists>lib fs x. lib \<in> set libs \<and> HasSuffix lib (''.so.'' @ ver) \<and>
        snd call = TrimSuffix lib (''.'' @ ver) \<and>
        Glob e fs (snd call @ ''.[0-9]'') = ([x], None) \<and> fst call = Base x)"

lemma justified_Cons: "justified e ver libs call \<Longrightarrow> justified e ver (lib # libs) call"
  unfolding justified_def by (meson list.set_intros(2))

lemma create_symlinks_calls:
  "\<exists>new. snd (create_symlinks e ver libs (fs, calls)) = calls @ new \<and>
         (\<forall>call. call \<in> set new \<longrightarrow> justified e ver libs call)"
proof (induction libs arbitrary: fs calls)
  case Nil
  then show ?case by simp
next
  case (Cons lib libs)
  let ?new = "TrimSuffix lib (''.'' @ ver)"
  show ?case
  proof (cases "HasSuffix lib (''.so.'' @ ver) \<and> (\<exists>x. Glob e fs (?new @ ''.[0-9]'') = ([x], None))")
    case True
    then obtain x where x: "Glob e fs (?new @ ''.[0-9]'') = ([x], None)"
      and suf: "HasSuffix lib (''.so.'' @ ver)" by blast
    let ?fs' = "snd (Symlink e fs (Base x) ?new)"
    obtain new where new: "snd (create_symlinks e ver libs (?fs', calls @ [(Base x, ?new)])) =
        (calls @ [(Base x, ?new)]) @ new"
      and just: "\<forall>call. call \<in> set new \<longrightarrow> justified e ver libs call"
      using Cons.IH by blast
    have "justified e ver (lib # libs) (Base x, ?new)"
      unfolding justified_def using x suf by auto
    with just have "\<forall>call. call \<in> set ((Base x, ?new) # new) \<longrightarrow>
        justified e ver (lib # libs) call"
      by (auto intro: justified_Cons)
    moreover have "snd (create_symlinks e ver (lib # libs) (fs, calls)) =
        calls @ ((Base x, ?new) # new)"
      using create_symlinks_one_sibling [OF suf x] new by simp
    ultimately show ?thesis by blast
  next
    case False
    then have skip: "\<not> HasSuffix lib (''.so.'' @ ver) \<or>
      length (fst (Glob e fs (?new @ ''.[0-9]''))) \<noteq> 1 \<or>
      snd (Glob e fs (?new @ ''.[0-9]'')) \<noteq> None"
      by (cases "Glob e fs (?new @ ''.[0-9]'')"; cases "fst (Glob e fs (?new @ ''.[0-9]''))")
        (auto simp add: length_Suc_conv)
    obtain new where "snd (create_symlinks e ver libs (fs, calls)) = calls @ new"
      and "\<forall>call. call \<in> set new \<longrightarrow> justified e ver libs call"
      using Cons.IH by blast
    then show ?thesis
      using create_symlinks_skip [OF skip] by (auto intro: justified_Cons)
  qed
qed


lemma run_located:
  assumes "LoadContainerState e (containerSpec cfg) = Inr s"
    and "GetContainerRoot e s = Inr root"
    and "LibraryLocator e root (''*.so.'' @ driverVersion cfg) = Inr libs"
  shows "run e cfg fs = (None, create_symlinks e (driverVersion cfg) libs (fs, []))"
  using assms by (simp add: run_def split: prod.splits)

text \<open>
  C7. When the container state loads, the container root is known and the locator
  returns, \<^verbatim>\<open>run\<close> returns no error, whatever \<^verbatim>\<open>Glob\<close> and \<^verbatim>\<open>Symlink\<close> answer for each
  library. Every \<^verbatim>\<open>os.Symlink\<close> call it makes is for a located library named
  \<^verbatim>\<open>*.so.<version>\<close> whose glob \<^verbatim>\<open><base>.so.[0-9]\<close> had exactly one match, from the base
  name of that match to the \<^verbatim>\<open><base>.so\<close> path. A library without the suffix, with no
  match, with more than one match or with a failing glob is passed over with nothing
  done; for a library with exactly one match the link is attempted once and the loop
  goes on to the next library whether the link was made or not.
\<close>

theorem run_best_effort:
  "LoadContainerState e (containerSpec cfg) = Inr s \<and> GetContainerRoot e s = Inr root \<and>
   LibraryLocator e root (''*.so.'' @ driverVersion cfg) = Inr libs \<longrightarrow>
     fst (run e cfg fs) = None \<and>
     snd (run e cfg fs) = create_symlinks e (driverVersion cfg) libs (fs, []) \<and>
     (\<forall>call. call \<in> set (snd (snd (run e cfg fs))) \<longrightarrow>
        justified e (driverVersion cfg) libs call) \<and>
     (\<forall>lib rest fs0 calls.
        \<not> HasSuffix lib (''.so.'' @ driverVersion cfg) \<or>
        length (fst (Glob e fs0 (TrimSuffix lib (''.'' @ driverVersion cfg) @ ''.[0-9]''))) \<noteq> 1 \<or>
        snd (Glob e fs0 (TrimSuffix lib (''.'' @ driverVersion cfg) @ ''.[0-9]'')) \<noteq> None \<longrightarrow>
        create_symlinks e (driverVersion cfg) (lib # rest) (fs0, calls) =
          create_symlinks e (driverVersion cfg) rest (fs0, calls)) \<and>
     (\<forall>lib rest fs0 calls x.
        HasSuffix lib (''.so.'' @ driverVersion cfg) \<and>
        Glob e fs0 (TrimSuffix lib (''.'' @ driverVersion cfg) @ ''.[0-9]'') = ([x], None) \<longrightarrow>
        create_symlinks e (driverVersion cfg) (lib # rest) (fs0, calls) =
          create_symlinks e (driverVersion cfg) rest
            (snd (Symlink e fs0 (Base x) (TrimSuffix lib (''.'' @ driverVersion cfg))),
             calls @ [(Base x, TrimSuffix lib (''.'' @ driverVersion cfg))]))"
proof (intro impI conjI allI)
  assume a: "LoadContainerState e (containerSpec cfg) = Inr s \<and> GetContainerRoot e s = Inr root \<and>
    LibraryLocator e root (''*.so.'' @ driverVersion cfg) = Inr libs"
  show "fst (run e cfg fs) = None"
    using a by (simp add: run_located)
  show "snd (run e cfg fs) = create_symlinks e (driverVersion cfg) libs (fs, [])"
    using a by (simp add: run_located)
  show "justified e (driverVersion cfg) libs call"
    if "call \<in> set (snd (snd (run e cfg fs)))" for call
  proof -
    have "call \<in> set (snd (create_symlinks e (driverVersion cfg) libs (fs, [])))"
      using a that by (simp add: run_located)
    then show ?thesis
      using create_symlinks_calls [of e "driverVersion cfg" libs fs "[]"] by fastforce
  qed
next
  fix lib rest fs0 calls
  assume "\<not> HasSuffix lib (''.so.'' @ driverVersion cfg) \<or>
        length (fst (Glob e fs0 (TrimSuffix lib (''.'' @ driverVersion cfg) @ ''.[0-9]''))) \<noteq> 1 \<or>
        snd (Glob e fs0 (TrimSuffix lib (''.'' @ driverVersion cfg) @ ''.[0-9]'')) \<noteq> None"
  then show "create_symlinks e (driverVersion cfg) (lib # rest) (fs0, calls) =
          create_symlinks e (driverVersion cfg) rest (fs0, calls)"
    by (rule create_symlinks_skip)
next
  fix lib rest fs0 calls x
  assume "HasSuffix lib (''.so.'' @ driverVersion cfg) \<and>
        Glob e fs0 (TrimSuffix lib (''.'' @ driverVersion cfg) @ ''.[0-9]'') = ([x], None)"
  then show "create_symlinks e (driverVersion cfg) (lib # rest) (fs0, calls) =
          create_symlinks e (driverVersion cfg) rest
            (snd (Symlink e fs0 (Base x) (TrimSuffix lib (''.'' @ driverVersion cfg))),
             calls @ [(Base x, TrimSuffix lib (''.'' @ driverVersion cfg))])"
    using create_symlinks_one_sibling [of lib "driverVersion cfg" e fs0 x rest calls] by blast
qed


text \<open>A sample run for driver version 5: four located libraries, of which the first and
  the last have one sibling, the second none and the third two; the file system is the
  list of the paths that exist, and the link for the first library is already there, so
  that \<^verbatim>\<open>Symlink\<close> fails for it.\<close>

definition sample_libs :: "string list" where
  "sample_libs = [''/l/liba.so.5'', ''/l/libb.so.5'', ''/l/libc.so.5'', ''/l/libd.so.5'']"

definition sample_env :: "(string, string list) env" where
  "sample_env =
     \<lparr>LoadContainerState = (\<lambda>spec. Inr ''state''),
      GetContainerRoot = (\<lambda>s. Inr ''/r''),
      LibraryLocator = (\<lambda>root pattern. Inr sample_libs),
      Glob = (\<lambda>fs pat.
        if pat = ''/l/liba.so.[0-9]'' then ([''/l/liba.so.1''], None)
        else if pat = ''/l/libc.so.[0-9]'' then ([''/l/libc.so.1'', ''/l/libc.so.2''], None)
        else if pat = ''/l/libd.so.[0-9]'' then ([''/l/libd.so.1''], None)
        else ([], None)),
      Symlink = (\<lambda>fs old new.
        if new \<in> set fs then (Some (Err ''file exists''), fs) else (None, fs @ [new]))\<rparr>"

definition sample_cfg :: config where
  "sample_cfg = \<lparr>containerSpec = ''-'', driverVersion = ''5''\<rparr>"

lemma sample_names:
  "HasSuffix ''/l/liba.so.5'' ''.so.5''" "TrimSuffix ''/l/liba.so.5'' ''.5'' = ''/l/liba.so''"
  "HasSuffix ''/l/libb.so.5'' ''.so.5''" "TrimSuffix ''/l/libb.so.5'' ''.5'' = ''/l/libb.so''"
  "HasSuffix ''/l/libc.so.5'' ''.so.5''" "TrimSuffix ''/l/libc.so.5'' ''.5'' = ''/l/libc.so''"
  "HasSuffix ''/l/libd.so.5'' ''.so.5''" "TrimSuffix ''/l/libd.so.5'' ''.5'' = ''/l/libd.so''"
  "Base ''/l/liba.so.1'' = ''liba.so.1''" "Base ''/l/libd.so.1'' = ''libd.so.1''"
  by code_simp+

lemma sample_globs:
  "Glob sample_env fs ''/l/liba.so.[0-9]'' = ([''/l/liba.so.1''], None)"
  "Glob sample_env fs ''/l/libb.so.[0-9]'' = ([], None)"
  "Glob sample_env fs ''/l/libc.so.[0-9]'' = ([''/l/libc.so.1'', ''/l/libc.so.2''], None)"
  "Glob sample_env fs ''/l/libd.so.[0-9]'' = ([''/l/libd.so.1''], None)"
  by (simp_all add: sample_env_def)

lemma sample_symlinks:
  "Symlink sample_env [''/l/liba.so''] ''liba.so.1'' ''/l/liba.so'' =
     (Some (Err ''file exists''), [''/l/liba.so''])"
  "Symlink sample_env [''/l/liba.so''] ''libd.so.1'' ''/l/libd.so'' =
     (None, [''/l/liba.so'', ''/l/libd.so''])"
  by (simp_all add: sample_env_def)

theorem run_best_effort_witness:
  "run sample_env sample_cfg [''/l/liba.so''] =
     (None, [''/l/liba.so'', ''/l/libd.so''],
      [(''liba.so.1'', ''/l/liba.so''), (''libd.so.1'', ''/l/libd.so'')])"
proof -
  let ?fs = "[''/l/liba.so'']"
  have pre: "LoadContainerState sample_env (containerSpec sample_cfg) = Inr ''state'' \<and>
      GetContainerRoot sample_env ''state'' = Inr ''/r'' \<and>
      LibraryLocator sample_env ''/r'' (''*.so.'' @ ''5'') = Inr sample_libs"
    by (simp add: sample_env_def)
  have ver: "driverVersion sample_cfg = ''5''"
    by (simp add: sample_cfg_def)
  note t = run_best_effort [of sample_env sample_cfg "''state''" "''/r''" sample_libs ?fs,
      unfolded ver, THEN mp, OF pre]
  have ok: "fst (run sample_env sample_cfg ?fs) = None"
    using t by blast
  have loop: "snd (run sample_env sample_cfg ?fs) = create_symlinks sample_env ''5'' sample_libs (?fs, [])"
    using t by blast
  have skip: "create_symlinks sample_env ''5'' (lib # rest) (fs0, calls) =
      create_symlinks sample_env ''5'' rest (fs0, calls)"
    if "\<not> HasSuffix lib (''.so.'' @ ''5'') \<or>
        length (fst (Glob sample_env fs0 (TrimSuffix lib (''.'' @ ''5'') @ ''.[0-9]''))) \<noteq> 1 \<or>
        snd (Glob sample_env fs0 (TrimSuffix lib (''.'' @ ''5'') @ ''.[0-9]'')) \<noteq> None"
    for lib rest fs0 calls
    using t that by blast
  have one: "create_symlinks sample_env ''5'' (lib # rest) (fs0, calls) =
      create_symlinks sample_env ''5'' rest
        (snd (Symlink sample_env fs0 (Base x) (TrimSuffix lib (''.'' @ ''5''))),
         calls @ [(Base x, TrimSuffix lib (''.'' @ ''5''))])"
    if "HasSuffix lib (''.so.'' @ ''5'') \<and>
        Glob sample_env fs0 (TrimSuffix lib (''.'' @ ''5'') @ ''.[0-9]'') = ([x], None)"
    for lib rest fs0 calls x
    using t that by blast
  have "create_symlinks sample_env ''5'' sample_libs (?fs, []) =
      create_symlinks sample_env ''5'' [''/l/libb.so.5'', ''/l/libc.so.5'', ''/l/libd.so.5'']
        (?fs, [(''liba.so.1'', ''/l/liba.so'')])"
    unfolding sample_libs_def
    using one [of "''/l/liba.so.5''" ?fs "''/l/liba.so.1''" _ "[]"]
    by (simp add: sample_names sample_globs sample_symlinks del: create_symlinks.simps)
  also have "\<dots> =
      create_symlinks sample_env ''5'' [''/l/libc.so.5'', ''/l/libd.so.5'']
        (?fs, [(''liba.so.1'', ''/l/liba.so'')])"
    using skip [of "''/l/libb.so.5''" ?fs]
    by (simp add: sample_names sample_globs del: create_symlinks.simps)
  also have "\<dots> =
      create_symlinks sample_env ''5'' [''/l/libd.so.5''] (?fs, [(''liba.so.1'', ''/l/liba.so'')])"
    using skip [of "''/l/libc.so.5''" ?fs]
    by (simp add: sample_names sample_globs del: create_symlinks.simps)
  also have "\<dots> =
      create_symlinks sample_env ''5'' []
        ([''/l/liba.so'', ''/l/libd.so''],
         [(''liba.so.1'', ''/l/liba.so''), (''libd.so.1'', ''/l/libd.so'')])"
    using one [of "''/l/libd.so.5''" ?fs "''/l/libd.so.1''" "[]" "[(''liba.so.1'', ''/l/liba.so'')]"]
    by (simp add: sample_names sample_globs sample_symlinks del: create_symlinks.simps)
  finally have "snd (run sample_env sample_cfg ?fs) =
      ([''/l/liba.so'', ''/l/libd.so''],
       [(''liba.so.1'', ''/l/liba.so''), (''libd.so.1'', ''/l/libd.so'')])"
    using loop by simp
  with ok show ?thesis
    by (cases "run sample_env sample_cfg ?fs") simp
qed

end
